theory Spec2Isabelle
  imports Main
begin

section \<open>Calendar values of the date library\<close>

text \<open>
  The plugin computes with \<^verbatim>\<open>moment\<close> objects of the date library that Obsidian
  provides. A moment is modelled by its local calendar fields: the year, the zero-based
  month (0 is January), the day of the month and the milliseconds since local midnight.
  The local time zone is taken to have no offset changes, so a calendar day always has
  86400000 milliseconds.
\<close>

record moment =
  year :: int
  month :: int
  date :: int
  msOfDay :: int

definition isLeapYear :: "int \<Rightarrow> bool" where
  "isLeapYear y = ((y mod 4 = 0 \<and> y mod 100 \<noteq> 0) \<or> y mod 400 = 0)"

text \<open>
  \<^verbatim>\<open>daysInMonth(year, month)\<close> of the library; a month outside 0..11 is carried into
  the year.
\<close>

definition daysInMonth :: "int \<Rightarrow> int \<Rightarrow> int" where
  "daysInMonth y m =
     (let modMonth = m mod 12; y' = y + (m - modMonth) div 12
      in if modMonth = 1 then (if isLeapYear y' then 29 else 28)
         else 31 - (modMonth mod 7) mod 2)"

text \<open>The moments that denote a calendar instant.\<close>

definition wellFormed :: "moment \<Rightarrow> bool" where
  "wellFormed m =
     (0 \<le> month m \<and> month m < 12 \<and> 1 \<le> date m \<and> date m \<le> daysInMonth (year m) (month m)
      \<and> 0 \<le> msOfDay m \<and> msOfDay m < 86400000)"

text \<open>
  Day arithmetic. The library adds days by setting the day of the month past the end (or
  before the start) of the month, and the underlying date object carries the excess into
  the neighbouring months and years, one calendar day per unit.
\<close>

definition nextDay :: "moment \<Rightarrow> moment" where
  "nextDay m =
     (if date m < daysInMonth (year m) (month m) then m\<lparr>date := date m + 1\<rparr>
      else if month m < 11 then m\<lparr>month := month m + 1, date := 1\<rparr>
      else m\<lparr>year := year m + 1, month := 0, date := 1\<rparr>)"

definition prevDay :: "moment \<Rightarrow> moment" where
  "prevDay m =
     (if 1 < date m then m\<lparr>date := date m - 1\<rparr>
      else if 0 < month m
        then m\<lparr>month := month m - 1, date := daysInMonth (year m) (month m - 1)\<rparr>
      else m\<lparr>year := year m - 1, month := 11, date := 31\<rparr>)"

function addDays :: "moment \<Rightarrow> int \<Rightarrow> moment" where
  "addDays m n =
     (if n = 0 then m
      else if 0 < n then addDays (nextDay m) (n - 1)
      else addDays (prevDay m) (n + 1))"
  by pat_completeness auto
termination
  by (relation "measure (\<lambda>(m, n). nat \<bar>n\<bar>)") auto

declare addDays.simps [simp del]

text \<open>
  Month arithmetic: \<^verbatim>\<open>setMonth\<close> of the library. The day of the month is clamped to the
  length of the target month, and a month index outside 0..11 is carried into the year.
\<close>

definition setMonth :: "moment \<Rightarrow> int \<Rightarrow> moment" where
  "setMonth m v =
     (let d = (if date m < 29 then date m else min (date m) (daysInMonth (year m) v))
      in m\<lparr>year := year m + v div 12, month := v mod 12, date := d\<rparr>)"

definition addMonths :: "moment \<Rightarrow> int \<Rightarrow> moment" where
  "addMonths m n = setMonth m (month m + n)"

text \<open>
  The year setter. A moment on February 29 is moved to the last day of February of the
  target year; every other moment keeps its month and day.
\<close>

definition setYear :: "moment \<Rightarrow> int \<Rightarrow> moment" where
  "setYear m v =
     (if isLeapYear (year m) \<and> month m = 1 \<and> date m = 29
      then m\<lparr>year := v, date := daysInMonth v (month m)\<rparr>
      else m\<lparr>year := v\<rparr>)"

text \<open>
  The epoch value. \<open>daysBeforeYear\<close> and \<open>daysBeforeMonth\<close> are the day counts of the
  language standard (days from 1 January 1970 to 1 January of the year, and from
  1 January to the first of the month); 1 January 1970 was a Thursday, weekday 4.
\<close>

definition daysBeforeYear :: "int \<Rightarrow> int" where
  "daysBeforeYear y =
     365 * (y - 1970) + (y - 1969) div 4 - (y - 1901) div 100 + (y - 1601) div 400"

definition daysBeforeMonth :: "int \<Rightarrow> int \<Rightarrow> int" where
  "daysBeforeMonth y m =
     (if m \<le> 0 then 0
      else if m = 1 then 31
      else (if isLeapYear y then 1 else 0) +
        (if m = 2 then 59 else if m = 3 then 90 else if m = 4 then 120
         else if m = 5 then 151 else if m = 6 then 181 else if m = 7 then 212
         else if m = 8 then 243 else if m = 9 then 273 else if m = 10 then 304
         else 334))"

definition dayNumber :: "moment \<Rightarrow> int" where
  "dayNumber m = daysBeforeYear (year m) + daysBeforeMonth (year m) (month m) + date m - 1"

definition valueOf :: "moment \<Rightarrow> int" where
  "valueOf m = dayNumber m * 86400000 + msOfDay m"

definition day :: "moment \<Rightarrow> int" where
  "day m = (dayNumber m + 4) mod 7"

definition isSameOrAfter :: "moment \<Rightarrow> moment \<Rightarrow> bool" where
  "isSameOrAfter a b = (valueOf b \<le> valueOf a)"

definition isSameOrBefore :: "moment \<Rightarrow> moment \<Rightarrow> bool" where
  "isSameOrBefore a b = (valueOf a \<le> valueOf b)"

text \<open>Start and end of the day, month and year, as \<^verbatim>\<open>startOf\<close> and \<^verbatim>\<open>endOf\<close> compute them.\<close>

definition startOfDay :: "moment \<Rightarrow> moment" where
  "startOfDay m = m\<lparr>msOfDay := 0\<rparr>"

definition endOfDay :: "moment \<Rightarrow> moment" where
  "endOfDay m = m\<lparr>msOfDay := 86399999\<rparr>"

definition startOfMonth :: "moment \<Rightarrow> moment" where
  "startOfMonth m = m\<lparr>date := 1, msOfDay := 0\<rparr>"

definition endOfMonth :: "moment \<Rightarrow> moment" where
  "endOfMonth m = m\<lparr>date := daysInMonth (year m) (month m), msOfDay := 86399999\<rparr>"

definition startOfYear :: "moment \<Rightarrow> moment" where
  "startOfYear m = m\<lparr>month := 0, date := 1, msOfDay := 0\<rparr>"

definition endOfYear :: "moment \<Rightarrow> moment" where
  "endOfYear m = m\<lparr>month := 11, date := 31, msOfDay := 86399999\<rparr>"

text \<open>
  The week is locale-aware: \<open>dow\<close> is the locale's first day of the week (0 is Sunday)
  and \<^verbatim>\<open>weekday()\<close> counts the days since the last such day. The week starts at the
  start of that day and ends with the last millisecond of the sixth day after it.
\<close>

definition weekday :: "int \<Rightarrow> moment \<Rightarrow> int" where
  "weekday dow m = (day m + 7 - dow) mod 7"

definition startOfWeek :: "int \<Rightarrow> moment \<Rightarrow> moment" where
  "startOfWeek dow m = startOfDay (addDays m (- weekday dow m))"

definition endOfWeek :: "int \<Rightarrow> moment \<Rightarrow> moment" where
  "endOfWeek dow m = endOfDay (addDays m (6 - weekday dow m))"

text \<open>
  The day-of-month setter; a value outside the month is carried like added days.
\<close>

definition setDate :: "moment \<Rightarrow> int \<Rightarrow> moment" where
  "setDate m v = addDays (m\<lparr>date := 1\<rparr>) (v - 1)"

text \<open>
  What the plugin takes from the library and its surroundings at one run: the clock
  reading \<^verbatim>\<open>moment()\<close>, the locale's first day of the week, and the format engine.
  \<open>parseStrict lib s f\<close> stands for \<^verbatim>\<open>moment(s, f, true)\<close>, \<open>None\<close> when the result is not
  valid; \<open>formatMoment lib d f\<close> stands for \<^verbatim>\<open>d.format(f)\<close>. The engine is a parameter:
  what is proved for every \<open>lib\<close> holds for whatever the engine answers.
\<close>

record momentLib =
  now :: moment
  dow :: int
  parseStrict :: "string \<Rightarrow> string \<Rightarrow> moment option"
  formatMoment :: "moment \<Rightarrow> string \<Rightarrow> string"

section \<open>Period arithmetic (dateUtils)\<close>

datatype NoteType = DAY | WEEK | MONTH | QUARTER | HALF_YEAR | YEAR

text \<open>
  \<^verbatim>\<open>getPreviousDate\<close> and \<^verbatim>\<open>getNextDate\<close>: one unit of the granularity back or forth.
  A week is seven days, a year is twelve months. The \<^verbatim>\<open>default\<close> arm of the source's
  switch is not reached by a value of the enumeration.
\<close>

fun getPreviousDate :: "moment \<Rightarrow> NoteType \<Rightarrow> moment" where
  "getPreviousDate d DAY = addDays d (- 1)"
| "getPreviousDate d WEEK = addDays d (- 7)"
| "getPreviousDate d MONTH = addMonths d (- 1)"
| "getPreviousDate d QUARTER = addMonths d (- 3)"
| "getPreviousDate d HALF_YEAR = addMonths d (- 6)"
| "getPreviousDate d YEAR = addMonths d (- 12)"

fun getNextDate :: "moment \<Rightarrow> NoteType \<Rightarrow> moment" where
  "getNextDate d DAY = addDays d 1"
| "getNextDate d WEEK = addDays d 7"
| "getNextDate d MONTH = addMonths d 1"
| "getNextDate d QUARTER = addMonths d 3"
| "getNextDate d HALF_YEAR = addMonths d 6"
| "getNextDate d YEAR = addMonths d 12"


record DateRange =
  rangeStart :: moment
  rangeEnd :: moment

text \<open>
  \<^verbatim>\<open>getBelongingDate\<close>: the start of the enclosing parent period. Quarter and half-year
  are built from the clock reading by setting year, month and day in this order. The
  \<^verbatim>\<open>default\<close> arm returns the date unchanged; of the enumeration only \<open>DAY\<close> reaches it.
\<close>

fun getBelongingDate :: "momentLib \<Rightarrow> moment \<Rightarrow> NoteType \<Rightarrow> NoteType \<Rightarrow> moment" where
  "getBelongingDate lib d childType WEEK = startOfWeek (dow lib) d"
| "getBelongingDate lib d childType MONTH = startOfMonth d"
| "getBelongingDate lib d childType QUARTER =
     (let quarter = month d div 3
      in startOfDay (setDate (setMonth (setYear (now lib) (year d)) (quarter * 3)) 1))"
| "getBelongingDate lib d childType HALF_YEAR =
     (let halfYear = month d div 6
      in startOfDay (setDate (setMonth (setYear (now lib) (year d)) (halfYear * 6)) 1))"
| "getBelongingDate lib d childType YEAR = startOfYear d"
| "getBelongingDate lib d childType DAY = d"

text \<open>
  \<^verbatim>\<open>getChildDateRange\<close>: the inclusive range of one parent period; \<open>None\<close> is the
  \<^verbatim>\<open>null\<close> of the \<^verbatim>\<open>default\<close> arm.
\<close>

fun getChildDateRange :: "momentLib \<Rightarrow> moment \<Rightarrow> NoteType \<Rightarrow> NoteType \<Rightarrow> DateRange option" where
  "getChildDateRange lib parentDate WEEK childType =
     Some \<lparr>rangeStart = startOfWeek (dow lib) parentDate,
           rangeEnd = endOfWeek (dow lib) parentDate\<rparr>"
| "getChildDateRange lib parentDate MONTH childType =
     Some \<lparr>rangeStart = startOfMonth parentDate, rangeEnd = endOfMonth parentDate\<rparr>"
| "getChildDateRange lib parentDate QUARTER childType =
     (let quarterStart = month parentDate div 3 * 3;
          startDate = startOfDay (setDate (setMonth (setYear (now lib) (year parentDate)) quarterStart) 1);
          endDate = endOfDay (addDays (addMonths startDate 3) (- 1))
      in Some \<lparr>rangeStart = startDate, rangeEnd = endDate\<rparr>)"
| "getChildDateRange lib parentDate HALF_YEAR childType =
     (let halfYearStart = month parentDate div 6 * 6;
          startDate = startOfDay (setDate (setMonth (setYear (now lib) (year parentDate)) halfYearStart) 1);
          endDate = endOfDay (addDays (addMonths startDate 6) (- 1))
      in Some \<lparr>rangeStart = startDate, rangeEnd = endDate\<rparr>)"
| "getChildDateRange lib parentDate YEAR childType =
     Some \<lparr>rangeStart = startOfYear parentDate, rangeEnd = endOfYear parentDate\<rparr>"
| "getChildDateRange lib parentDate DAY childType = None"

text \<open>Membership in an inclusive range, as the aggregation tests it.\<close>

definition inRange :: "moment \<Rightarrow> DateRange \<Rightarrow> bool" where
  "inRange d r = (isSameOrAfter d (rangeStart r) \<and> isSameOrBefore d (rangeEnd r))"

section \<open>Strings\<close>

text \<open>
  The string methods of the host language that the plugin calls: \<^verbatim>\<open>startsWith\<close>,
  \<^verbatim>\<open>includes\<close>, \<^verbatim>\<open>split\<close> and \<^verbatim>\<open>replace\<close> with a string pattern, which replaces
  the first occurrence only and expands the dollar patterns of the replacement text
  (a string pattern has no capture groups, so only the four patterns below are special).
\<close>

definition strStartsWith :: "string \<Rightarrow> string \<Rightarrow> bool" where
  "strStartsWith s p = (take (length p) s = p)"

fun strIncludes :: "string \<Rightarrow> string \<Rightarrow> bool" where
  "strIncludes [] sub = (sub = [])"
| "strIncludes (c # cs) sub = (strStartsWith (c # cs) sub \<or> strIncludes cs sub)"

fun strSplitChar :: "char \<Rightarrow> string \<Rightarrow> string list" where
  "strSplitChar sep [] = [[]]"
| "strSplitChar sep (c # cs) =
     (if c = sep then [] # strSplitChar sep cs
      else (case strSplitChar sep cs of
              [] \<Rightarrow> [[c]]
            | h # t \<Rightarrow> (c # h) # t))"

fun expandReplacement :: "string \<Rightarrow> string \<Rightarrow> string \<Rightarrow> string \<Rightarrow> string" where
  "expandReplacement matched pre post [] = []"
| "expandReplacement matched pre post [c] = [c]"
| "expandReplacement matched pre post (c # e # r) =
     (if c = CHR ''$'' \<and> e = CHR ''$'' then CHR ''$'' # expandReplacement matched pre post r
      else if c = CHR ''$'' \<and> e = CHR ''&'' then matched @ expandReplacement matched pre post r
      else if c = CHR ''$'' \<and> e = CHR 0x60 then pre @ expandReplacement matched pre post r
      else if c = CHR ''$'' \<and> e = CHR 0x27 then post @ expandReplacement matched pre post r
      else c # expandReplacement matched pre post (e # r))"

fun replaceFrom :: "string \<Rightarrow> string \<Rightarrow> string \<Rightarrow> string \<Rightarrow> string" where
  "replaceFrom pre [] pat rep = (if pat = [] then pre @ expandReplacement pat pre [] rep else pre)"
| "replaceFrom pre (c # cs) pat rep =
     (if strStartsWith (c # cs) pat
      then pre @ expandReplacement pat pre (drop (length pat) (c # cs)) rep
             @ drop (length pat) (c # cs)
      else replaceFrom (pre @ [c]) cs pat rep)"

definition strReplace :: "string \<Rightarrow> string \<Rightarrow> string \<Rightarrow> string" where
  "strReplace s pat rep = replaceFrom [] s pat rep"

text \<open>
  \<^verbatim>\<open>s.split(sep)\<close> for a separator of several characters, used on the format string.
\<close>

fun strSplitFrom :: "string \<Rightarrow> string \<Rightarrow> string \<Rightarrow> string list" where
  "strSplitFrom sep cur [] = [cur]"
| "strSplitFrom sep cur (c # cs) =
     (if sep \<noteq> [] \<and> strStartsWith (c # cs) sep
      then cur # strSplitFrom sep [] (drop (length sep - 1) cs)
      else strSplitFrom sep (cur @ [c]) cs)"

text \<open>Decimal numerals.\<close>

definition digitVal :: "char \<Rightarrow> int option" where
  "digitVal c = map_of [(CHR ''0'', 0), (CHR ''1'', 1), (CHR ''2'', 2), (CHR ''3'', 3),
     (CHR ''4'', 4), (CHR ''5'', 5), (CHR ''6'', 6), (CHR ''7'', 7), (CHR ''8'', 8),
     (CHR ''9'', 9)] c"

fun digitsValue :: "int \<Rightarrow> string \<Rightarrow> int option" where
  "digitsValue acc [] = Some acc"
| "digitsValue acc (c # cs) =
     (case digitVal c of None \<Rightarrow> None | Some v \<Rightarrow> digitsValue (acc * 10 + v) cs)"

function showNat :: "nat \<Rightarrow> string" where
  "showNat n =
     (if n < 10 then [''0123456789'' ! n]
      else showNat (n div 10) @ [''0123456789'' ! (n mod 10)])"
  by pat_completeness auto
termination
  by (relation "measure (\<lambda>n. n)") auto

declare showNat.simps [simp del]

definition showInt :: "int \<Rightarrow> string" where
  "showInt i = (if i < 0 then CHR ''-'' # showNat (nat (- i)) else showNat (nat i))"

text \<open>
  The numeric value of a string where the library's setters take one: a string that is
  not a number leaves the moment unchanged. Strings of decimal digits are modelled (the
  empty string converts to 0); signed, fractional, exponent and radix forms and
  surrounding white space also convert in the host language and are outside this model.
\<close>

definition toNumber :: "string \<Rightarrow> int option" where
  "toNumber s = digitsValue 0 s"

definition yearFromString :: "moment \<Rightarrow> string \<Rightarrow> moment" where
  "yearFromString m s = (case toNumber s of None \<Rightarrow> m | Some v \<Rightarrow> setYear m v)"

section \<open>Parsing and formatting file names (dateUtils)\<close>

text \<open>
  \<^verbatim>\<open>parseDateFromFilename\<close>. The half-year format is parsed by hand from the segments
  between hyphens: segment 0 is the year, segment 1 the half; a missing segment 1 is
  \<^verbatim>\<open>undefined\<close> and fails both comparisons. Every other format goes to the library's
  strict parser.
\<close>

definition parseDateFromFilename :: "momentLib \<Rightarrow> string \<Rightarrow> string \<Rightarrow> moment option" where
  "parseDateFromFilename lib filename format =
     (if format = ''YYYY-[H]H'' then
        (case strSplitChar CHR ''-'' filename of
           [] \<Rightarrow> None
         | yr # rest \<Rightarrow>
             (case rest of
                [] \<Rightarrow> None
              | halfYear # _ \<Rightarrow>
                  if halfYear = ''H1''
                    then Some (setDate (setMonth (yearFromString (now lib) yr) 0) 1)
                  else if halfYear = ''H2''
                    then Some (setDate (setMonth (yearFromString (now lib) yr) 6) 1)
                  else None))
      else parseStrict lib filename format)"

text \<open>
  \<^verbatim>\<open>formatDateForFilename\<close>. A format that contains the half-year token gets the
  1-based half index; the default half-year format is handled directly, a custom one is
  split at the token.
\<close>

definition formatDateForFilename :: "momentLib \<Rightarrow> moment \<Rightarrow> string \<Rightarrow> string" where
  "formatDateForFilename lib d format =
     (if strIncludes format ''[H]H'' then
        (let halfYear = month d div 6 + 1
         in if format = ''YYYY-[H]H''
              then formatMoment lib d ''YYYY'' @ ''-H'' @ showInt halfYear
            else (case strSplitFrom ''[H]H'' [] format of
                    [beforeStr, afterStr] \<Rightarrow>
                      formatMoment lib d beforeStr @ ''H'' @ showInt halfYear
                        @ formatMoment lib d afterStr
                  | _ \<Rightarrow> formatMoment lib d format))
      else formatMoment lib d format)"

section \<open>A format engine for year, month and day\<close>

text \<open>
  For evaluation at concrete file names the engine is instantiated for the formats that
  are built from the tokens \<^verbatim>\<open>YYYY\<close>, \<^verbatim>\<open>MM\<close> and \<^verbatim>\<open>DD\<close>, bracketed literals without
  brackets inside, and punctuation. The strict parser wants each token at the current
  position (four digits, two digits, two digits, the literal text) and nothing left
  over; fields that were not parsed are defaulted as the library does (leading ones from
  the clock, the others to their minimum), and the result must be a calendar date.
  Format letters of other tokens and the empty format (for which the library falls back
  to its ISO default) are outside this instance.
\<close>

datatype token = TYear | TMonth | TDay | TLit string

function tokenize :: "string \<Rightarrow> token list" where
  "tokenize s =
     (case s of
        [] \<Rightarrow> []
      | c # r \<Rightarrow>
          if strStartsWith s ''YYYY'' then TYear # tokenize (drop 4 s)
          else if strStartsWith s ''MM'' then TMonth # tokenize (drop 2 s)
          else if strStartsWith s ''DD'' then TDay # tokenize (drop 2 s)
          else if c = CHR ''['' \<and> CHR '']'' \<in> set r
            then TLit (takeWhile (\<lambda>x. x \<noteq> CHR '']'') r)
                   # tokenize (drop 1 (dropWhile (\<lambda>x. x \<noteq> CHR '']'') r))
          else TLit [c] # tokenize r)"
  by pat_completeness auto
termination
proof (relation "measure length")
  fix s :: string and c r
  assume "s = c # r"
  have "length (dropWhile (\<lambda>x. x \<noteq> CHR '']'') r) \<le> length r"
    by (rule length_dropWhile_le)
  then show "(drop 1 (dropWhile (\<lambda>x. x \<noteq> CHR '']'') r), s) \<in> measure length"
    using \<open>s = c # r\<close> by simp
qed (auto simp: strStartsWith_def)

declare tokenize.simps [simp del]

fun parseTokens ::
  "token list \<Rightarrow> string \<Rightarrow> int option \<times> int option \<times> int option
     \<Rightarrow> (int option \<times> int option \<times> int option) option" where
  "parseTokens [] s acc = (if s = [] then Some acc else None)"
| "parseTokens (TYear # ts) s (y, m, d) =
     (if 4 \<le> length s
      then (case digitsValue 0 (take 4 s) of
              None \<Rightarrow> None
            | Some v \<Rightarrow> parseTokens ts (drop 4 s) (Some v, m, d))
      else None)"
| "parseTokens (TMonth # ts) s (y, m, d) =
     (if 2 \<le> length s
      then (case digitsValue 0 (take 2 s) of
              None \<Rightarrow> None
            | Some v \<Rightarrow> parseTokens ts (drop 2 s) (y, Some (v - 1), d))
      else None)"
| "parseTokens (TDay # ts) s (y, m, d) =
     (if 2 \<le> length s
      then (case digitsValue 0 (take 2 s) of
              None \<Rightarrow> None
            | Some v \<Rightarrow> parseTokens ts (drop 2 s) (y, m, Some v))
      else None)"
| "parseTokens (TLit l # ts) s acc =
     (if l \<noteq> [] \<and> strStartsWith s l then parseTokens ts (drop (length l) s) acc else None)"

definition momentParse :: "moment \<Rightarrow> string \<Rightarrow> string \<Rightarrow> moment option" where
  "momentParse clock s f =
     (case parseTokens (tokenize f) s (None, None, None) of
        None \<Rightarrow> None
      | Some (y, m, d) \<Rightarrow>
          if y = None \<and> m = None \<and> d = None then None
          else
            (let y' = (case y of Some v \<Rightarrow> v | None \<Rightarrow> year clock);
                 m' = (case m of Some v \<Rightarrow> v | None \<Rightarrow> if y = None then month clock else 0);
                 d' = (case d of Some v \<Rightarrow> v
                       | None \<Rightarrow> if y = None \<and> m = None then date clock else 1);
                 r = \<lparr>year = y', month = m', date = d', msOfDay = 0\<rparr>
             in if wellFormed r then Some r else None))"

definition zeroFill :: "int \<Rightarrow> nat \<Rightarrow> string" where
  "zeroFill v targetLength =
     (let absNumber = showNat (nat \<bar>v\<bar>)
      in (if 0 \<le> v then [] else ''-'')
           @ replicate (targetLength - length absNumber) CHR ''0'' @ absNumber)"

fun formatToken :: "moment \<Rightarrow> token \<Rightarrow> string" where
  "formatToken d TYear = zeroFill (year d) 4"
| "formatToken d TMonth = zeroFill (month d + 1) 2"
| "formatToken d TDay = zeroFill (date d) 2"
| "formatToken d (TLit l) = l"

definition momentFormat :: "moment \<Rightarrow> string \<Rightarrow> string" where
  "momentFormat d f = concat (map (formatToken d) (tokenize f))"

text \<open>
  The library at noon of Monday 2 November 2026, in a locale whose week starts on Sunday.
\<close>

definition exampleLib :: momentLib where
  "exampleLib =
     \<lparr>now = \<lparr>year = 2026, month = 10, date = 2, msOfDay = 43200000\<rparr>,
      dow = 0,
      parseStrict = momentParse \<lparr>year = 2026, month = 10, date = 2, msOfDay = 43200000\<rparr>,
      formatMoment = momentFormat\<rparr>"

section \<open>Streams, files and metadata\<close>

text \<open>
  The stream configuration record of the source (its field \<^verbatim>\<open>id\<close> is \<open>streamId\<close> here).
\<close>

record NoteStream =
  streamId :: string
  name :: string
  folderPath :: string
  noteType :: NoteType
  dateFormat :: string
  autoLinking :: bool
  overwriteExisting :: bool
  beforeFieldName :: string
  afterFieldName :: string
  enableBelongingNotes :: bool
  belongingNoteFolder :: string
  belongingNoteType :: NoteType
  belongingNoteDateFormat :: string
  templatePath :: string

text \<open>
  A markdown file of the vault with the two fields the plugin reads. The vault is the
  list that \<^verbatim>\<open>getMarkdownFiles()\<close> returns, in its order; a path that ends in the
  markdown extension names a file exactly when a file of the list has that path.
\<close>

record TFile =
  path :: string
  basename :: string

definition isTFile :: "TFile list \<Rightarrow> string \<Rightarrow> bool" where
  "isTFile vault p = list_ex (\<lambda>f. path f = p) vault"

text \<open>
  Metadata values, with the truth value the host language gives them in a condition.
  Numbers are modelled by integers.
\<close>

datatype yaml =
    YNull
  | YBool bool
  | YNum int
  | YStr string
  | YList "yaml list"
  | YObj "(string \<times> yaml) list"

fun truthy :: "yaml \<Rightarrow> bool" where
  "truthy YNull = False"
| "truthy (YBool b) = b"
| "truthy (YNum n) = (n \<noteq> 0)"
| "truthy (YStr s) = (s \<noteq> [])"
| "truthy (YList xs) = True"
| "truthy (YObj kvs) = True"

type_synonym frontmatter = "string \<Rightarrow> yaml option"

text \<open>\<^verbatim>\<open>frontmatter[key]\<close> in a condition: an absent key is \<^verbatim>\<open>undefined\<close>, which is false.\<close>

definition fieldTruthy :: "frontmatter \<Rightarrow> string \<Rightarrow> bool" where
  "fieldTruthy fm key = (case fm key of None \<Rightarrow> False | Some v \<Rightarrow> truthy v)"

text \<open>The metadata of every file, by path; \<^verbatim>\<open>processFrontMatter\<close> rewrites one entry.\<close>

type_synonym store = "string \<Rightarrow> frontmatter"

section \<open>NoteManager\<close>

record NoteManager =
  isUpdating :: bool

text \<open>
  The search loop of \<^verbatim>\<open>updateNoteLinks\<close>: the expected path, replaced by the path of
  the first listed file with the expected basename whose path starts with the folder
  path.
\<close>

definition resolveNotePath :: "TFile list \<Rightarrow> string \<Rightarrow> string \<Rightarrow> string" where
  "resolveNotePath allFiles folder noteName =
     (case find (\<lambda>f. basename f = noteName \<and> strStartsWith (path f) folder) allFiles of
        Some f \<Rightarrow> path f
      | None \<Rightarrow> folder @ ''/'' @ noteName @ ''.md'')"

text \<open>
  One direction of the metadata callback. The source writes this block twice, for the
  before-field with the previous note and for the after-field with the next note.
\<close>

definition updateLinkField ::
  "NoteStream \<Rightarrow> TFile list \<Rightarrow> string \<Rightarrow> string \<Rightarrow> frontmatter \<Rightarrow> frontmatter" where
  "updateLinkField stream vault fieldName noteName fm =
     (if overwriteExisting stream \<or> \<not> fieldTruthy fm fieldName then
        (let notePath = resolveNotePath vault (folderPath stream) noteName
         in if isTFile vault notePath
              then fm(fieldName \<mapsto> YStr (''[['' @ notePath @ ''|'' @ noteName @ '']]''))
            else if fieldTruthy fm fieldName then fm(fieldName := None)
            else fm)
      else fm)"

definition linksCallback ::
  "NoteStream \<Rightarrow> TFile list \<Rightarrow> string \<Rightarrow> string \<Rightarrow> frontmatter \<Rightarrow> frontmatter" where
  "linksCallback stream vault prevNoteName nextNoteName fm =
     updateLinkField stream vault (afterFieldName stream) nextNoteName
       (updateLinkField stream vault (beforeFieldName stream) prevNoteName fm)"

text \<open>
  \<^verbatim>\<open>updateNoteLinks\<close> in its three parts. \<open>beginUpdate\<close> is the code before the
  \<^verbatim>\<open>try\<close>: the guard, the validation and the setting of the flag; \<open>None\<close> is an early
  return. \<open>patchLinks\<close> is the body of the \<^verbatim>\<open>try\<close>, which returns early on an empty
  neighbour name and otherwise awaits the metadata rewrite. \<open>endUpdate\<close> is the
  \<^verbatim>\<open>finally\<close> block. The result is the manager and the metadata of the file when the
  promise settles. The source's tests for a missing file or stream and for a missing
  neighbour date cannot succeed on values of these types and have no branch here; the
  callback's own \<^verbatim>\<open>catch\<close> has nothing to catch, since no step of the callback throws.
\<close>

definition beginUpdate ::
  "NoteManager \<Rightarrow> momentLib \<Rightarrow> TFile \<Rightarrow> NoteStream \<Rightarrow> (NoteManager \<times> moment) option" where
  "beginUpdate nm lib file stream =
     (if isUpdating nm then None
      else if folderPath stream = [] then None
      else (case parseDateFromFilename lib (basename file) (dateFormat stream) of
              None \<Rightarrow> None
            | Some d \<Rightarrow> Some (nm\<lparr>isUpdating := True\<rparr>, d)))"

definition patchLinks ::
  "momentLib \<Rightarrow> TFile list \<Rightarrow> NoteStream \<Rightarrow> moment \<Rightarrow> frontmatter \<Rightarrow> frontmatter" where
  "patchLinks lib vault stream d fm =
     (let prevDate = getPreviousDate d (noteType stream);
          nextDate = getNextDate d (noteType stream);
          prevNoteName = formatDateForFilename lib prevDate (dateFormat stream);
          nextNoteName = formatDateForFilename lib nextDate (dateFormat stream)
      in if prevNoteName = [] \<or> nextNoteName = [] then fm
         else linksCallback stream vault prevNoteName nextNoteName fm)"

definition endUpdate :: "NoteManager \<Rightarrow> NoteManager" where
  "endUpdate nm = nm\<lparr>isUpdating := False\<rparr>"

definition updateNoteLinks ::
  "NoteManager \<Rightarrow> momentLib \<Rightarrow> TFile list \<Rightarrow> TFile \<Rightarrow> NoteStream \<Rightarrow> frontmatter
     \<Rightarrow> NoteManager \<times> frontmatter" where
  "updateNoteLinks nm lib vault file stream fm =
     (case beginUpdate nm lib file stream of
        None \<Rightarrow> (nm, fm)
      | Some (nm', d) \<Rightarrow> (endUpdate nm', patchLinks lib vault stream d fm))"

text \<open>
  \<^verbatim>\<open>handleNoteRename\<close>. The callback reads each link field with
  \<^verbatim>\<open>frontmatter[key]?.includes(oldBasename)\<close>: an absent or null value skips the field, a
  string is searched, a list is tested for an equal element, and any other value has no
  such method, which throws. A field that passes the test is rewritten with
  \<^verbatim>\<open>replace\<close>, which a list does not have. A throw rejects the rewrite of that file and
  ends the whole operation at that point.
\<close>

datatype error = TypeError

definition renameField :: "string \<Rightarrow> string \<Rightarrow> string \<Rightarrow> frontmatter \<Rightarrow> error + frontmatter" where
  "renameField key oldBasename newBasename fm =
     (case fm key of
        None \<Rightarrow> Inr fm
      | Some YNull \<Rightarrow> Inr fm
      | Some (YStr s) \<Rightarrow>
          if strIncludes s oldBasename
          then Inr (fm(key \<mapsto> YStr (strReplace s (''[['' @ oldBasename @ '']]'')
                                        (''[['' @ newBasename @ '']]''))))
          else Inr fm
      | Some (YList xs) \<Rightarrow> if YStr oldBasename \<in> set xs then Inl TypeError else Inr fm
      | Some _ \<Rightarrow> Inl TypeError)"

definition renameCallback ::
  "NoteStream \<Rightarrow> string \<Rightarrow> string \<Rightarrow> frontmatter \<Rightarrow> error + frontmatter" where
  "renameCallback stream oldBasename newBasename fm =
     (case renameField (beforeFieldName stream) oldBasename newBasename fm of
        Inl e \<Rightarrow> Inl e
      | Inr fm' \<Rightarrow> renameField (afterFieldName stream) oldBasename newBasename fm')"

fun renameInFiles ::
  "NoteStream \<Rightarrow> string \<Rightarrow> string \<Rightarrow> TFile list \<Rightarrow> store \<Rightarrow> store \<times> error option" where
  "renameInFiles stream oldBasename newBasename [] st = (st, None)"
| "renameInFiles stream oldBasename newBasename (noteFile # files) st =
     (case renameCallback stream oldBasename newBasename (st (path noteFile)) of
        Inl e \<Rightarrow> (st, Some e)
      | Inr fm' \<Rightarrow>
          renameInFiles stream oldBasename newBasename files (st(path noteFile := fm')))"

definition oldBasenameOf :: "string \<Rightarrow> string" where
  "oldBasenameOf oldPath =
     (case strSplitChar CHR ''.'' (last (strSplitChar CHR ''/'' oldPath)) of
        [] \<Rightarrow> []
      | b # _ \<Rightarrow> b)"

fun handleNoteRename ::
  "TFile list \<Rightarrow> TFile \<Rightarrow> string \<Rightarrow> NoteStream list \<Rightarrow> store \<Rightarrow> store \<times> error option" where
  "handleNoteRename vault file oldPath [] st = (st, None)"
| "handleNoteRename vault file oldPath (stream # noteStreams) st =
     (if \<not> strStartsWith oldPath (folderPath stream)
        then handleNoteRename vault file oldPath noteStreams st
      else
        (let files = filter (\<lambda>f. strStartsWith (path f) (folderPath stream)) vault;
             oldBasename = oldBasenameOf oldPath
         in if oldBasename = [] then handleNoteRename vault file oldPath noteStreams st
            else (case renameInFiles stream oldBasename (basename file) files st of
                    (st', Some e) \<Rightarrow> (st', Some e)
                  | (st', None) \<Rightarrow> handleNoteRename vault file oldPath noteStreams st')))"

section \<open>BelongingNoteManager\<close>

text \<open>
  The part of \<^verbatim>\<open>createOrUpdateBelongingNote\<close> that decides which path the belonging
  note has: the expected path, replaced by the path of the first listed file with the
  expected basename whose path starts with the belonging folder and differs from the
  expected path. \<open>None\<close> is an early return.
\<close>

definition belongingNotePath ::
  "momentLib \<Rightarrow> TFile list \<Rightarrow> TFile \<Rightarrow> NoteStream \<Rightarrow> string option" where
  "belongingNotePath lib vault file stream =
     (if \<not> enableBelongingNotes stream then None
      else (case parseDateFromFilename lib (basename file) (dateFormat stream) of
              None \<Rightarrow> None
            | Some d \<Rightarrow>
                (let belongingDate = getBelongingDate lib d (noteType stream) (belongingNoteType stream);
                     belongingNoteName =
                       formatDateForFilename lib belongingDate (belongingNoteDateFormat stream);
                     belongingFolder =
                       (if belongingNoteFolder stream \<noteq> [] then belongingNoteFolder stream
                        else folderPath stream);
                     expected = belongingFolder @ ''/'' @ belongingNoteName @ ''.md''
                 in Some (case find (\<lambda>f. basename f = belongingNoteName
                                         \<and> strStartsWith (path f) belongingFolder
                                         \<and> path f \<noteq> expected) vault of
                            Some f \<Rightarrow> path f
                          | None \<Rightarrow> expected))))"

text \<open>
  \<^verbatim>\<open>updateBelongingNoteContent\<close>. The candidates are the listed files under the stream
  folder whose basename parses into the range; they are sorted with the source's
  comparator, and the array sort is stable.
\<close>

definition isChildNote :: "momentLib \<Rightarrow> NoteStream \<Rightarrow> DateRange \<Rightarrow> TFile \<Rightarrow> bool" where
  "isChildNote lib stream dateRange file =
     ((path file = folderPath stream \<or> strStartsWith (path file) (folderPath stream @ ''/''))
      \<and> (case parseDateFromFilename lib (basename file) (dateFormat stream) of
            None \<Rightarrow> False
          | Some d \<Rightarrow> isSameOrAfter d (rangeStart dateRange)
                        \<and> isSameOrBefore d (rangeEnd dateRange)))"

definition compareByDate :: "momentLib \<Rightarrow> NoteStream \<Rightarrow> TFile \<Rightarrow> TFile \<Rightarrow> int" where
  "compareByDate lib stream a b =
     (case parseDateFromFilename lib (basename a) (dateFormat stream) of
        None \<Rightarrow> 0
      | Some dateA \<Rightarrow>
          (case parseDateFromFilename lib (basename b) (dateFormat stream) of
             None \<Rightarrow> 0
           | Some dateB \<Rightarrow> valueOf dateA - valueOf dateB))"

fun insertSorted :: "('a \<Rightarrow> 'a \<Rightarrow> int) \<Rightarrow> 'a \<Rightarrow> 'a list \<Rightarrow> 'a list" where
  "insertSorted cmp x [] = [x]"
| "insertSorted cmp x (y # ys) =
     (if cmp x y \<le> 0 then x # y # ys else y # insertSorted cmp x ys)"

definition arraySort :: "('a \<Rightarrow> 'a \<Rightarrow> int) \<Rightarrow> 'a list \<Rightarrow> 'a list" where
  "arraySort cmp xs = foldr (insertSorted cmp) xs []"

definition childNotesOf :: "momentLib \<Rightarrow> TFile list \<Rightarrow> NoteStream \<Rightarrow> DateRange \<Rightarrow> TFile list" where
  "childNotesOf lib vault stream dateRange =
     arraySort (compareByDate lib stream) (filter (isChildNote lib stream dateRange) vault)"

definition childLink :: "TFile \<Rightarrow> yaml" where
  "childLink f = YStr (''[['' @ strReplace (path f) ''.md'' [] @ ''|'' @ basename f @ '']]'')"

definition updateBelongingNoteContent ::
  "momentLib \<Rightarrow> TFile list \<Rightarrow> TFile \<Rightarrow> NoteStream \<Rightarrow> frontmatter \<Rightarrow> frontmatter" where
  "updateBelongingNoteContent lib vault belongingFile stream fm =
     (case parseDateFromFilename lib (basename belongingFile) (belongingNoteDateFormat stream) of
        None \<Rightarrow> fm
      | Some belongingDate \<Rightarrow>
          (case getChildDateRange lib belongingDate (belongingNoteType stream) (noteType stream) of
             None \<Rightarrow> fm
           | Some dateRange \<Rightarrow>
               (let childNotes = childNotesOf lib vault stream dateRange;
                    startStr = formatDateForFilename lib (rangeStart dateRange) (dateFormat stream);
                    endStr = formatDateForFilename lib (rangeEnd dateRange) (dateFormat stream);
                    fm1 = fm(''date-range'' \<mapsto> YObj [(''start'', YStr startStr), (''end'', YStr endStr)]);
                    fm2 = (if fieldTruthy fm1 ''child-notes'' then fm1(''child-notes'' := None) else fm1)
                in fm2(''child-notes'' \<mapsto> YList (map childLink childNotes)))))"

text \<open>Streams and vaults for evaluation.\<close>

definition journal :: NoteStream where
  "journal =
     \<lparr>streamId = ''s1'', name = ''Journal'', folderPath = ''J'', noteType = DAY,
      dateFormat = ''YYYY-MM-DD'', autoLinking = True, overwriteExisting = False,
      beforeFieldName = ''before'', afterFieldName = ''after'', enableBelongingNotes = True,
      belongingNoteFolder = [], belongingNoteType = MONTH,
      belongingNoteDateFormat = ''YYYY-MM'', templatePath = []\<rparr>"

definition mdFile :: "string \<Rightarrow> string \<Rightarrow> TFile" where
  "mdFile folder base = \<lparr>path = folder @ ''/'' @ base @ ''.md'', basename = base\<rparr>"


definition januaryVault :: "TFile list" where
  "januaryVault =
     [mdFile ''J'' ''2024-01-09'', mdFile ''J/sub'' ''2024-01-07'', mdFile ''J'' ''2024-02-01'',
      mdFile ''J'' ''2024-01-05'', mdFile ''K'' ''2024-01-06'']"

definition neighbourVault :: "TFile list" where
  "neighbourVault =
     [mdFile ''J'' ''2024-01-01'', mdFile ''J'' ''2024-01-02'', mdFile ''J'' ''2024-01-03'']"

definition renamedVault :: "TFile list" where
  "renamedVault =
     [mdFile ''J'' ''2024-01-01'', mdFile ''J'' ''2024-01-02b'', mdFile ''J'' ''2024-01-03'']"

text \<open>
  The metadata after \<^verbatim>\<open>updateNoteLinks\<close> has run on the three notes of
  \<open>neighbourVault\<close>, with the middle note already under its new path.
\<close>

definition linkedStore :: store where
  "linkedStore p =
     (if p = ''J/2024-01-01.md''
        then snd (updateNoteLinks \<lparr>isUpdating = False\<rparr> exampleLib neighbourVault
                    (mdFile ''J'' ''2024-01-01'') journal Map.empty)
      else if p = ''J/2024-01-02b.md''
        then snd (updateNoteLinks \<lparr>isUpdating = False\<rparr> exampleLib neighbourVault
                    (mdFile ''J'' ''2024-01-02'') journal Map.empty)
      else if p = ''J/2024-01-03.md''
        then snd (updateNoteLinks \<lparr>isUpdating = False\<rparr> exampleLib neighbourVault
                    (mdFile ''J'' ''2024-01-03'') journal Map.empty)
      else Map.empty)"

definition siblingVault :: "TFile list" where
  "siblingVault =
     [mdFile ''J2'' ''2024-01-01'', mdFile ''J2'' ''2024-01'', mdFile ''J'' ''2024-01-02'']"

text \<open>
  The specification's wording of a shallow scan: a path lies directly in a folder when
  its segments are the folder's segments followed by the file name.
\<close>

definition directlyInFolder :: "string \<Rightarrow> string \<Rightarrow> bool" where
  "directlyInFolder folder p =
     (butlast (strSplitChar CHR ''/'' p) = strSplitChar CHR ''/'' folder)"

section \<open>Calendar facts\<close>

lemma month_cases:
  "0 \<le> (k::int) \<Longrightarrow> k < 12 \<Longrightarrow>
   k = 0 \<or> k = 1 \<or> k = 2 \<or> k = 3 \<or> k = 4 \<or> k = 5 \<or> k = 6 \<or> k = 7 \<or> k = 8 \<or> k = 9 \<or> k = 10 \<or> k = 11"
  by arith

lemma daysInMonth_table:
  "daysInMonth y 0 = 31" "daysInMonth y 1 = (if isLeapYear y then 29 else 28)"
  "daysInMonth y 2 = 31" "daysInMonth y 3 = 30" "daysInMonth y 4 = 31" "daysInMonth y 5 = 30"
  "daysInMonth y 6 = 31" "daysInMonth y 7 = 31" "daysInMonth y 8 = 30" "daysInMonth y 9 = 31"
  "daysInMonth y 10 = 30" "daysInMonth y 11 = 31"
  by (simp_all add: daysInMonth_def)

lemma daysInMonth_bounds:
  assumes "0 \<le> k" "k < 12"
  shows "28 \<le> daysInMonth y k \<and> daysInMonth y k \<le> 31"
  using month_cases [OF assms] by (auto simp: daysInMonth_table)

lemma daysBeforeMonth_Suc:
  "0 \<le> k \<Longrightarrow> k < 11 \<Longrightarrow> daysBeforeMonth y (k + 1) = daysBeforeMonth y k + daysInMonth y k"
  using month_cases [of k] by (auto simp: daysBeforeMonth_def daysInMonth_table)

lemma div_step:
  assumes "0 < (n::int)"
  shows "(x + 1) div n = x div n + (if (x + 1) mod n = 0 then 1 else 0)"
proof -
  define q where "q = x div n"
  define r where "r = x mod n"
  have x: "x = n * q + r" and r0: "0 \<le> r" and rn: "r < n"
    using assms by (simp_all add: q_def r_def)
  show ?thesis
  proof (cases "r + 1 = n")
    case True
    have e: "x + 1 = n * (q + 1) + 0" using x True by (simp add: algebra_simps)
    have "(x + 1) div n = q + 1" using assms by (intro int_div_pos_eq [OF e]) simp_all
    moreover have "(x + 1) mod n = 0" using assms by (intro int_mod_pos_eq [OF e]) simp_all
    ultimately show ?thesis by (simp add: q_def)
  next
    case False
    have e: "x + 1 = n * q + (r + 1)" using x by simp
    have lt: "r + 1 < n" using False rn by simp
    have "(x + 1) div n = q" using r0 lt by (intro int_div_pos_eq [OF e]) simp_all
    moreover have "(x + 1) mod n = r + 1" using r0 lt by (intro int_mod_pos_eq [OF e]) simp_all
    ultimately show ?thesis using r0 by (simp add: q_def)
  qed
qed

lemma daysBeforeYear_Suc:
  "daysBeforeYear (y + 1) = daysBeforeYear y + (if isLeapYear y then 366 else 365)"
proof -
  define A where "A = (y - 1969) div 4"
  define B where "B = (y - 1901) div 100"
  define C where "C = (y - 1601) div 400"
  define p4 where "p4 = (y mod 4 = 0)"
  define p100 where "p100 = (y mod 100 = 0)"
  define p400 where "p400 = (y mod 400 = 0)"
  have m4: "(y - 1968) mod 4 = y mod 4" by algebra
  have m100: "(y - 1900) mod 100 = y mod 100" by algebra
  have m400: "(y - 1600) mod 400 = y mod 400" by algebra
  have a: "(y - 1968) div 4 = A + (if p4 then 1 else 0)"
    using div_step [of 4 "y - 1969"] m4 by (simp add: A_def p4_def)
  have b: "(y - 1900) div 100 = B + (if p100 then 1 else 0)"
    using div_step [of 100 "y - 1901"] m100 by (simp add: B_def p100_def)
  have c: "(y - 1600) div 400 = C + (if p400 then 1 else 0)"
    using div_step [of 400 "y - 1601"] m400 by (simp add: C_def p400_def)
  have d100: "p100 \<Longrightarrow> p4" unfolding p100_def p4_def
    using mod_mod_cancel [of 4 100 y] by simp
  have d400: "p400 \<Longrightarrow> p100" unfolding p100_def p400_def
    using mod_mod_cancel [of 100 400 y] by simp
  have l: "isLeapYear y = ((p4 \<and> \<not> p100) \<or> p400)"
    by (simp add: isLeapYear_def p4_def p100_def p400_def)
  have e1: "daysBeforeYear (y + 1) =
      365 * (y - 1969) + (A + (if p4 then 1 else 0)) - (B + (if p100 then 1 else 0))
        + (C + (if p400 then 1 else 0))"
    using a b c by (simp add: daysBeforeYear_def)
  have e0: "daysBeforeYear y = 365 * (y - 1970) + A - B + C"
    by (simp add: daysBeforeYear_def A_def B_def C_def)
  show ?thesis
    unfolding e1 e0 l using d100 d400 by (cases p4; cases p100; cases p400) simp_all
qed

lemma wellFormed_nextDay: "wellFormed m \<Longrightarrow> wellFormed (nextDay m)"
  using daysInMonth_bounds [of "month m + 1" "year m"]
  by (auto simp: wellFormed_def nextDay_def daysInMonth_table)

lemma wellFormed_prevDay: "wellFormed m \<Longrightarrow> wellFormed (prevDay m)"
  using daysInMonth_bounds [of "month m - 1" "year m"]
  by (auto simp: wellFormed_def prevDay_def daysInMonth_table)

lemma prevDay_nextDay:
  assumes "wellFormed m"
  shows "prevDay (nextDay m) = m"
proof -
  have bd: "1 \<le> date m" "date m \<le> daysInMonth (year m) (month m)" "0 \<le> month m" "month m < 12"
    using assms by (simp_all add: wellFormed_def)
  consider (a) "date m < daysInMonth (year m) (month m)"
    | (b) "date m = daysInMonth (year m) (month m)" "month m < 11"
    | (c) "date m = daysInMonth (year m) (month m)" "month m = 11"
    using bd by linarith
  then show ?thesis
  proof cases
    case a
    then show ?thesis using bd by (simp add: nextDay_def prevDay_def)
  next
    case b
    then show ?thesis using \<open>0 \<le> month m\<close> by (simp add: nextDay_def prevDay_def)
  next
    case c
    then show ?thesis by (simp add: nextDay_def prevDay_def daysInMonth_table)
  qed
qed

lemma nextDay_prevDay:
  assumes "wellFormed m"
  shows "nextDay (prevDay m) = m"
proof -
  have bd: "1 \<le> date m" "date m \<le> daysInMonth (year m) (month m)" "0 \<le> month m" "month m < 12"
    using assms by (simp_all add: wellFormed_def)
  consider (a) "1 < date m" | (b) "date m = 1" "0 < month m" | (c) "date m = 1" "month m = 0"
    using bd by linarith
  then show ?thesis
  proof cases
    case a
    then show ?thesis using bd by (simp add: nextDay_def prevDay_def)
  next
    case b
    then show ?thesis using \<open>month m < 12\<close> by (simp add: nextDay_def prevDay_def)
  next
    case c
    then show ?thesis by (simp add: nextDay_def prevDay_def daysInMonth_table)
  qed
qed

lemma dayNumber_nextDay:
  assumes "wellFormed m"
  shows "dayNumber (nextDay m) = dayNumber m + 1"
proof -
  have bd: "1 \<le> date m" "date m \<le> daysInMonth (year m) (month m)" "0 \<le> month m" "month m < 12"
    using assms by (simp_all add: wellFormed_def)
  consider (a) "date m < daysInMonth (year m) (month m)"
    | (b) "date m = daysInMonth (year m) (month m)" "month m < 11"
    | (c) "date m = daysInMonth (year m) (month m)" "month m = 11"
    using bd by linarith
  then show ?thesis
  proof cases
    case a
    then show ?thesis by (simp add: nextDay_def dayNumber_def)
  next
    case b
    then show ?thesis using daysBeforeMonth_Suc [of "month m" "year m"] \<open>0 \<le> month m\<close>
      by (simp add: nextDay_def dayNumber_def)
  next
    case c
    then show ?thesis using daysBeforeYear_Suc [of "year m"]
      by (simp add: nextDay_def dayNumber_def daysInMonth_table daysBeforeMonth_def)
  qed
qed

lemma dayNumber_prevDay: "wellFormed m \<Longrightarrow> dayNumber (prevDay m) = dayNumber m - 1"
  using dayNumber_nextDay [of "prevDay m"] wellFormed_prevDay [of m] nextDay_prevDay [of m]
  by simp

lemma msOfDay_nextDay [simp]: "msOfDay (nextDay m) = msOfDay m"
  by (simp add: nextDay_def)

lemma msOfDay_prevDay [simp]: "msOfDay (prevDay m) = msOfDay m"
  by (simp add: prevDay_def)

lemma daysBeforeYear_mono: "y \<le> y' \<Longrightarrow> daysBeforeYear y \<le> daysBeforeYear y'"
proof (induction y' rule: int_ge_induct)
  case base
  show ?case by simp
next
  case (step i)
  then show ?case using daysBeforeYear_Suc [of i] by (simp split: if_splits)
qed

lemma daysBeforeMonth_step_le:
  assumes "0 \<le> k" "k < k'" "k' < 12"
  shows "daysBeforeMonth y k + daysInMonth y k \<le> daysBeforeMonth y k'"
  using assms(2,3)
proof (induction k' rule: int_gr_induct)
  case base
  then show ?case using daysBeforeMonth_Suc [of k y] assms(1) by simp
next
  case (step i)
  have "daysBeforeMonth y (i + 1) = daysBeforeMonth y i + daysInMonth y i"
    using daysBeforeMonth_Suc [of i y] step assms(1) by simp
  moreover have "0 \<le> daysInMonth y i"
    using daysInMonth_bounds [of i y] step assms(1) by simp
  ultimately show ?case using step by simp
qed

lemma daysBeforeMonth_nonneg: "0 \<le> daysBeforeMonth y k"
  by (simp add: daysBeforeMonth_def)

lemma dayOfYear_le:
  assumes "wellFormed m"
  shows "daysBeforeMonth (year m) (month m) + date m \<le> (if isLeapYear (year m) then 366 else 365)"
proof -
  have bd: "date m \<le> daysInMonth (year m) (month m)" "0 \<le> month m" "month m < 12"
    using assms by (simp_all add: wellFormed_def)
  show ?thesis
  proof (cases "month m = 11")
    case True
    then show ?thesis using bd by (simp add: daysBeforeMonth_def daysInMonth_table)
  next
    case False
    then have "month m < 11" using bd by simp
    then have "daysBeforeMonth (year m) (month m) + daysInMonth (year m) (month m)
        \<le> daysBeforeMonth (year m) 11"
      using daysBeforeMonth_step_le [of "month m" 11 "year m"] bd by simp
    then show ?thesis using bd by (simp add: daysBeforeMonth_def split: if_splits)
  qed
qed

lemma dayNumber_less:
  assumes "wellFormed a" "wellFormed b"
    and "year a < year b \<or> (year a = year b \<and> (month a < month b \<or>
           (month a = month b \<and> date a < date b)))"
  shows "dayNumber a < dayNumber b"
proof -
  have wa: "1 \<le> date a" "date a \<le> daysInMonth (year a) (month a)" "0 \<le> month a" "month a < 12"
    using assms(1) by (simp_all add: wellFormed_def)
  have wb: "1 \<le> date b" "date b \<le> daysInMonth (year b) (month b)" "0 \<le> month b" "month b < 12"
    using assms(2) by (simp_all add: wellFormed_def)
  consider (y) "year a < year b" | (m) "year a = year b" "month a < month b"
    | (d) "year a = year b" "month a = month b" "date a < date b"
    using assms(3) by blast
  then show ?thesis
  proof cases
    case y
    have "dayNumber a < daysBeforeYear (year a + 1)"
      using dayOfYear_le [OF assms(1)] daysBeforeYear_Suc [of "year a"]
      by (simp add: dayNumber_def split: if_splits)
    also have "\<dots> \<le> daysBeforeYear (year b)"
      using y by (intro daysBeforeYear_mono) simp
    also have "\<dots> \<le> dayNumber b"
      using wb daysBeforeMonth_nonneg [of "year b" "month b"] by (simp add: dayNumber_def)
    finally show ?thesis .
  next
    case m
    then show ?thesis
      using daysBeforeMonth_step_le [of "month a" "month b" "year b"] wa wb
      by (simp add: dayNumber_def)
  next
    case d
    then show ?thesis by (simp add: dayNumber_def)
  qed
qed

lemma dayNumber_inj:
  assumes "wellFormed a" "wellFormed b" "dayNumber a = dayNumber b"
  shows "year a = year b \<and> month a = month b \<and> date a = date b"
proof (rule ccontr)
  assume n: "\<not> ?thesis"
  then have "(year a < year b \<or> (year a = year b \<and> (month a < month b \<or>
           (month a = month b \<and> date a < date b))))
     \<or> (year b < year a \<or> (year b = year a \<and> (month b < month a \<or>
           (month b = month a \<and> date b < date a))))"
    by linarith
  then show False
    using dayNumber_less [OF assms(1,2)] dayNumber_less [OF assms(2,1)] assms(3) by auto
qed

lemma dayNumber_le_fields:
  assumes "wellFormed a" "wellFormed b" "dayNumber a \<le> dayNumber b"
  shows "year a < year b \<or> (year a = year b \<and> (month a < month b \<or>
           (month a = month b \<and> date a \<le> date b)))"
proof (rule ccontr)
  assume "\<not> ?thesis"
  then have "year b < year a \<or> (year b = year a \<and> (month b < month a \<or>
           (month b = month a \<and> date b < date a)))"
    by linarith
  then show False using dayNumber_less [OF assms(2,1)] assms(3) by simp
qed

lemma valueOf_le_dayNumber:
  assumes "wellFormed a" "wellFormed b" "valueOf a \<le> valueOf b"
  shows "dayNumber a \<le> dayNumber b"
proof (rule ccontr)
  assume "\<not> ?thesis"
  then have "dayNumber b + 1 \<le> dayNumber a" by simp
  then have "(dayNumber b + 1) * 86400000 \<le> dayNumber a * 86400000" by simp
  then show False using assms by (simp add: valueOf_def wellFormed_def algebra_simps)
qed

lemma wellFormed_addDays: "wellFormed m \<Longrightarrow> wellFormed (addDays m n)"
proof (induction m n rule: addDays.induct)
  case (1 m n)
  then show ?case
    by (subst addDays.simps) (simp add: wellFormed_nextDay wellFormed_prevDay)
qed

lemma dayNumber_addDays: "wellFormed m \<Longrightarrow> dayNumber (addDays m n) = dayNumber m + n"
proof (induction m n rule: addDays.induct)
  case (1 m n)
  then show ?case
    by (subst addDays.simps)
       (simp add: wellFormed_nextDay wellFormed_prevDay dayNumber_nextDay dayNumber_prevDay)
qed

lemma msOfDay_addDays [simp]: "msOfDay (addDays m n) = msOfDay m"
proof (induction m n rule: addDays.induct)
  case (1 m n)
  then show ?case by (subst addDays.simps) simp
qed

lemma more_nextDay [simp]: "moment.more (nextDay m) = moment.more m"
  by (simp add: nextDay_def)

lemma more_prevDay [simp]: "moment.more (prevDay m) = moment.more m"
  by (simp add: prevDay_def)

lemma more_addDays [simp]: "moment.more (addDays m n) = moment.more m"
proof (induction m n rule: addDays.induct)
  case (1 m n)
  then show ?case by (subst addDays.simps) simp
qed

lemma moment_eqI:
  fixes a b :: moment
  assumes "wellFormed a" "wellFormed b" "dayNumber a = dayNumber b" "msOfDay a = msOfDay b"
  shows "a = b"
  using dayNumber_inj [OF assms(1,2,3)] assms(4) by simp

lemma addDays_addDays:
  assumes "wellFormed m"
  shows "addDays (addDays m n) k = addDays m (n + k)"
  by (rule moment_eqI)
     (simp_all add: assms wellFormed_addDays dayNumber_addDays)

lemma addDays_0 [simp]: "addDays m 0 = m"
  by (subst addDays.simps) simp
section \<open>Stepping by one period\<close>

lemma addMonths_inverse:
  assumes "0 \<le> month p" "month p < 12" "date p \<le> 28"
  shows "addMonths (addMonths p n) (- n) = p"
proof -
  have m: "((month p + n) mod 12 - n) mod 12 = month p"
    using assms(1,2) by (simp add: mod_diff_left_eq)
  have "(month p + n) div 12 * 12 + (month p + n) mod 12 = month p + n" by simp
  moreover have "((month p + n) mod 12 - n) div 12 * 12 + ((month p + n) mod 12 - n) mod 12
     = (month p + n) mod 12 - n" by simp
  ultimately have y: "(month p + n) div 12 + ((month p + n) mod 12 - n) div 12 = 0"
    unfolding m by linarith
  show ?thesis using assms(3) m y
    by (simp add: addMonths_def setMonth_def Let_def)
qed

text \<open>
  At a month-end the step clamps the day: from 31 January 2024 one month forth is
  29 February, and one month back from there is 29 January.
\<close>

lemma month_end_steps:
  "getNextDate \<lparr>year = 2024, month = 0, date = 31, msOfDay = 0\<rparr> MONTH
     = \<lparr>year = 2024, month = 1, date = 29, msOfDay = 0\<rparr>"
  "getPreviousDate \<lparr>year = 2024, month = 1, date = 29, msOfDay = 0\<rparr> MONTH
     = \<lparr>year = 2024, month = 0, date = 29, msOfDay = 0\<rparr>"
  by code_simp+

text \<open>
  Claim C8. For a well-formed period, stepping to the next period and back, or to the
  previous period and forth, returns the period: always for the day and week
  granularities, and for the month-based granularities (month, quarter, half-year, year)
  whenever the day of the month is at most 28. The excepted periods are the month-ends
  (days 29 to 31), where the step clamps the day to the length of the target month.
\<close>

theorem period_step_inverse:
  assumes "wellFormed p" and "g = DAY \<or> g = WEEK \<or> date p \<le> 28"
  shows "getPreviousDate (getNextDate p g) g = p \<and> getNextDate (getPreviousDate p g) g = p"
proof -
  have mb: "0 \<le> month p" "month p < 12" using assms(1) by (simp_all add: wellFormed_def)
  have dd: "addDays (addDays p n) (- n) = p" for n
    using addDays_addDays [OF assms(1), of n "- n"] by simp
  show ?thesis
  proof (cases g)
    case DAY
    then show ?thesis using dd [of 1] dd [of "- 1"] by simp
  next
    case WEEK
    then show ?thesis using dd [of 7] dd [of "- 7"] by simp
  next
    case MONTH
    then have d: "date p \<le> 28" using assms(2) by simp
    show ?thesis using MONTH addMonths_inverse [OF mb d, of 1] addMonths_inverse [OF mb d, of "- 1"]
      by simp
  next
    case QUARTER
    then have d: "date p \<le> 28" using assms(2) by simp
    show ?thesis using QUARTER addMonths_inverse [OF mb d, of 3] addMonths_inverse [OF mb d, of "- 3"]
      by simp
  next
    case HALF_YEAR
    then have d: "date p \<le> 28" using assms(2) by simp
    show ?thesis using HALF_YEAR addMonths_inverse [OF mb d, of 6] addMonths_inverse [OF mb d, of "- 6"]
      by simp
  next
    case YEAR
    then have d: "date p \<le> 28" using assms(2) by simp
    show ?thesis using YEAR addMonths_inverse [OF mb d, of 12] addMonths_inverse [OF mb d, of "- 12"]
      by simp
  qed
qed

theorem period_step_inverse_witness:
  "wellFormed \<lparr>year = 2024, month = 0, date = 15, msOfDay = 0\<rparr>
   \<and> (MONTH = DAY \<or> MONTH = WEEK \<or> date \<lparr>year = 2024, month = 0, date = 15, msOfDay = 0\<rparr> \<le> 28)
   \<and> getPreviousDate (getNextDate \<lparr>year = 2024, month = 0, date = 15, msOfDay = 0\<rparr> MONTH) MONTH
       = \<lparr>year = 2024, month = 0, date = 15, msOfDay = 0\<rparr>
   \<and> getNextDate (getPreviousDate \<lparr>year = 2024, month = 0, date = 15, msOfDay = 0\<rparr> MONTH) MONTH
       = \<lparr>year = 2024, month = 0, date = 15, msOfDay = 0\<rparr>"
proof -
  have w: "wellFormed \<lparr>year = 2024, month = 0, date = 15, msOfDay = 0\<rparr>"
    by (simp add: wellFormed_def daysInMonth_def)
  have h: "MONTH = DAY \<or> MONTH = WEEK
      \<or> date \<lparr>year = 2024, month = 0, date = 15, msOfDay = 0\<rparr> \<le> 28"
    by simp
  show ?thesis using w h period_step_inverse [OF w h] by simp
qed
section \<open>Parent boundary and child range\<close>

lemma setDate_1: "setDate m 1 = m\<lparr>date := 1\<rparr>"
  by (simp add: setDate_def)

lemma bucket_start:
  assumes "0 \<le> k" "k < 12"
  shows "startOfDay (setDate (setMonth (setYear n y) k) 1)
     = \<lparr>year = y, month = k, date = 1, msOfDay = 0\<rparr>"
  using assms by (simp add: setDate_1 startOfDay_def setMonth_def setYear_def Let_def)

lemma wellFormed_first: "0 \<le> k \<Longrightarrow> k < 12 \<Longrightarrow> wellFormed \<lparr>year = y, month = k, date = 1, msOfDay = 0\<rparr>"
  using daysInMonth_bounds [of k y] by (simp add: wellFormed_def)

lemma between_fields:
  assumes "wellFormed a" "wellFormed b" "wellFormed x"
    and "valueOf a \<le> valueOf x" "valueOf x \<le> valueOf b" "year a = year b"
  shows "year x = year a \<and> month a \<le> month x \<and> month x \<le> month b"
  using dayNumber_le_fields [OF assms(1,3) valueOf_le_dayNumber [OF assms(1,3,4)]]
        dayNumber_le_fields [OF assms(3,2) valueOf_le_dayNumber [OF assms(3,2,5)]] assms(6)
  by linarith

lemma valueOf_leI:
  assumes "dayNumber a \<le> dayNumber b" "msOfDay a \<le> msOfDay b"
  shows "valueOf a \<le> valueOf b"
  using assms by (simp add: valueOf_def add_mono)

lemma weekday_eq: "weekday w m = (dayNumber m + 11 - w) mod 7"
proof -
  have "weekday w m = ((dayNumber m + 4) mod 7 + (7 - w)) mod 7"
    by (simp add: weekday_def day_def algebra_simps)
  also have "\<dots> = ((dayNumber m + 4) + (7 - w)) mod 7"
    by (simp only: mod_add_left_eq)
  finally show ?thesis by (simp add: algebra_simps)
qed

lemma weekday_startOfWeek:
  assumes "wellFormed d"
  shows "weekday w (startOfWeek w d) = 0"
proof -
  define X where "X = dayNumber d + 11 - w"
  have dn: "dayNumber (startOfWeek w d) = dayNumber d - weekday w d"
    using dayNumber_addDays [OF assms, of "- weekday w d"]
    by (simp add: startOfWeek_def startOfDay_def dayNumber_def)
  have "weekday w (startOfWeek w d) = (X - X mod 7) mod 7"
    unfolding weekday_eq [of w "startOfWeek w d"] dn
    by (simp add: weekday_eq X_def algebra_simps)
  also have "\<dots> = 0" by (simp add: minus_mod_eq_mult_div)
  finally show ?thesis .
qed

lemma week_member:
  assumes "wellFormed p" "wellFormed x" "weekday w p = 0" "msOfDay p = 0"
    and "valueOf p \<le> valueOf x" "valueOf x \<le> valueOf (endOfWeek w p)"
  shows "startOfWeek w x = p"
proof -
  have e: "wellFormed (endOfWeek w p)"
    using wellFormed_addDays [OF assms(1), of 6] assms(3)
    by (simp add: endOfWeek_def endOfDay_def wellFormed_def)
  have de: "dayNumber (endOfWeek w p) = dayNumber p + 6"
    using dayNumber_addDays [OF assms(1), of 6] assms(3)
    by (simp add: endOfWeek_def endOfDay_def dayNumber_def)
  have lo: "dayNumber p \<le> dayNumber x" by (rule valueOf_le_dayNumber [OF assms(1,2,5)])
  have hi: "dayNumber x \<le> dayNumber p + 6"
    using valueOf_le_dayNumber [OF assms(2) e assms(6)] de by simp
  have h0: "(dayNumber p + 11 - w) mod 7 = 0" using assms(3) by (simp add: weekday_eq)
  have "weekday w x = ((dayNumber p + 11 - w) + (dayNumber x - dayNumber p)) mod 7"
    by (simp add: weekday_eq algebra_simps)
  also have "\<dots> = ((dayNumber p + 11 - w) mod 7 + (dayNumber x - dayNumber p)) mod 7"
    by (simp only: mod_add_left_eq)
  also have "\<dots> = dayNumber x - dayNumber p" using h0 lo hi by simp
  finally have wd: "weekday w x = dayNumber x - dayNumber p" .
  have wf: "wellFormed (startOfWeek w x)"
    using wellFormed_addDays [OF assms(2), of "- weekday w x"]
    by (simp add: startOfWeek_def startOfDay_def wellFormed_def)
  have dn: "dayNumber (startOfWeek w x) = dayNumber p"
    using dayNumber_addDays [OF assms(2), of "- weekday w x"] wd
    by (simp add: startOfWeek_def startOfDay_def dayNumber_def)
  show ?thesis
    by (rule moment_eqI [OF wf assms(1) dn]) (simp add: startOfWeek_def startOfDay_def assms(4))
qed

lemma week_range:
  fixes w :: int
  assumes "wellFormed d"
  defines "p \<equiv> startOfWeek w d"
  shows "wellFormed p" "startOfWeek w p = p" "valueOf p \<le> valueOf (endOfWeek w p)"
proof -
  show wf: "wellFormed p"
    using wellFormed_addDays [OF assms(1), of "- weekday w d"]
    by (simp add: p_def startOfWeek_def startOfDay_def wellFormed_def)
  have w0: "weekday w p = 0" unfolding p_def by (rule weekday_startOfWeek [OF assms(1)])
  have m0: "msOfDay p = 0" by (simp add: p_def startOfWeek_def startOfDay_def)
  show "startOfWeek w p = p" using w0 m0 by (simp add: startOfWeek_def startOfDay_def)
  have "dayNumber (endOfWeek w p) = dayNumber p + 6"
    using dayNumber_addDays [OF wf, of 6] w0
    by (simp add: endOfWeek_def endOfDay_def dayNumber_def)
  then show "valueOf p \<le> valueOf (endOfWeek w p)"
    using m0 by (intro valueOf_leI) (simp_all add: endOfWeek_def endOfDay_def)
qed

lemma bucket_end:
  assumes "0 \<le> k" "k + n \<le> 12" "0 < n"
  shows "endOfDay (addDays (addMonths \<lparr>year = y, month = k, date = 1, msOfDay = 0\<rparr> n) (- 1))
     = \<lparr>year = y, month = k + n - 1, date = daysInMonth y (k + n - 1), msOfDay = 86399999\<rparr>"
proof (cases "k + n = 12")
  case True
  then show ?thesis
    by (simp add: endOfDay_def addMonths_def setMonth_def addDays.simps [of _ "- 1"] prevDay_def
        daysInMonth_table)
next
  case False
  then have lt: "k + n < 12" using assms by simp
  then have "(k + n) div 12 = 0" "(k + n) mod 12 = k + n" using assms by simp_all
  then show ?thesis using assms
    by (simp add: endOfDay_def addMonths_def setMonth_def addDays.simps [of _ "- 1"] prevDay_def)
qed

lemma bucket_arith3:
  fixes a b :: int
  assumes "0 \<le> a" "a < 12"
  shows "0 \<le> a div 3 * 3" "a div 3 * 3 + 3 \<le> 12" "a div 3 * 3 div 3 * 3 = a div 3 * 3"
    "a div 3 * 3 \<le> b \<Longrightarrow> b \<le> a div 3 * 3 + 3 - 1 \<Longrightarrow> b div 3 * 3 = a div 3 * 3"
  using assms by presburger+

lemma bucket_arith6:
  fixes a b :: int
  assumes "0 \<le> a" "a < 12"
  shows "0 \<le> a div 6 * 6" "a div 6 * 6 + 6 \<le> 12" "a div 6 * 6 div 6 * 6 = a div 6 * 6"
    "a div 6 * 6 \<le> b \<Longrightarrow> b \<le> a div 6 * 6 + 6 - 1 \<Longrightarrow> b div 6 * 6 = a div 6 * 6"
  using assms by presburger+

lemma bucket_arith:
  fixes a b n :: int
  assumes "n = 3 \<or> n = 6" "0 \<le> a" "a < 12"
  shows "0 \<le> a div n * n" "a div n * n + n \<le> 12" "a div n * n div n * n = a div n * n"
    "a div n * n \<le> b \<Longrightarrow> b \<le> a div n * n + n - 1 \<Longrightarrow> b div n * n = a div n * n"
  using assms(1) bucket_arith3 [OF assms(2,3)] bucket_arith6 [OF assms(2,3)] by blast+

lemma bucket_member:
  fixes n :: int
  assumes "n = 3 \<or> n = 6" "wellFormed d"
  defines "k \<equiv> month d div n * n"
  defines "p \<equiv> \<lparr>year = year d, month = k, date = 1, msOfDay = 0\<rparr>"
  defines "e \<equiv> \<lparr>year = year d, month = k + n - 1, date = daysInMonth (year d) (k + n - 1),
                   msOfDay = 86399999\<rparr>"
  shows "0 \<le> k" "k + n \<le> 12" "k < 12" "valueOf p \<le> valueOf e"
    "k div n * n = k"
    "\<And>x. wellFormed x \<Longrightarrow> valueOf p \<le> valueOf x \<Longrightarrow> valueOf x \<le> valueOf e \<Longrightarrow>
        year x = year d \<and> month x div n * n = k"
proof -
  have mb: "0 \<le> month d" "month d < 12" using assms(2) by (simp_all add: wellFormed_def)
  have n2: "2 < n" using assms(1) by auto
  show k0: "0 \<le> k" unfolding k_def by (rule bucket_arith(1) [OF assms(1) mb])
  show kn: "k + n \<le> 12" unfolding k_def by (rule bucket_arith(2) [OF assms(1) mb])
  show k12: "k < 12" using kn n2 by simp
  show "k div n * n = k" unfolding k_def by (rule bucket_arith(3) [OF assms(1) mb])
  have wp: "wellFormed p" unfolding p_def using k0 k12 by (rule wellFormed_first)
  have eb: "0 \<le> k + n - 1" "k + n - 1 < 12" using k0 kn n2 by simp_all
  have we: "wellFormed e"
    using daysInMonth_bounds [OF eb, of "year d"] eb by (simp add: e_def wellFormed_def)
  have "k < k + n - 1" using n2 by simp
  then have "dayNumber p < dayNumber e"
    using wp we by (intro dayNumber_less) (simp_all add: p_def e_def)
  then show "valueOf p \<le> valueOf e" by (intro valueOf_leI) (simp_all add: p_def e_def)
  fix x assume x: "wellFormed x" "valueOf p \<le> valueOf x" "valueOf x \<le> valueOf e"
  have b: "year x = year p \<and> month p \<le> month x \<and> month x \<le> month e"
    by (rule between_fields [OF wp we x]) (simp add: p_def e_def)
  then have mx: "month d div n * n \<le> month x" "month x \<le> month d div n * n + n - 1"
    by (simp_all add: p_def e_def k_def)
  have "month x div n * n = month d div n * n"
    by (rule bucket_arith(4) [OF assms(1) mb mx])
  then show "year x = year d \<and> month x div n * n = k" using b by (simp add: p_def k_def)
qed

lemma bucket_case:
  fixes n :: int
  assumes n: "n = 3 \<or> n = 6" and d: "wellFormed d"
    and P: "\<And>x. wellFormed x \<Longrightarrow> B x = startOfDay (setDate (setMonth (setYear (now lib) (year x)) (month x div n * n)) 1)"
    and R: "\<And>x. R x = Some \<lparr>rangeStart = startOfDay (setDate (setMonth (setYear (now lib) (year x)) (month x div n * n)) 1),
           rangeEnd = endOfDay (addDays (addMonths (startOfDay (setDate (setMonth (setYear (now lib) (year x)) (month x div n * n)) 1)) n) (- 1))\<rparr>"
  shows "\<exists>r. R (B d) = Some r \<and> inRange (B d) r
           \<and> (\<forall>x. wellFormed x \<and> inRange x r \<longrightarrow> B x = B d)"
proof -
  define k where "k = month d div n * n"
  define p where "p = \<lparr>year = year d, month = k, date = 1, msOfDay = 0\<rparr>"
  define e where "e = \<lparr>year = year d, month = k + n - 1, date = daysInMonth (year d) (k + n - 1),
                   msOfDay = 86399999\<rparr>"
  note bm = bucket_member [OF n d, folded k_def, folded p_def e_def]
  have npos: "0 < n" using n by auto
  have Bd: "B d = p" using bm(1,3) by (simp add: P [OF d] bucket_start k_def [symmetric] p_def)
  have start: "startOfDay (setDate (setMonth (setYear (now lib) (year p)) (month p div n * n)) 1) = p"
    using bm(1,3,5) by (simp add: p_def bucket_start)
  have Rp: "R p = Some \<lparr>rangeStart = p, rangeEnd = e\<rparr>"
    unfolding R start using bucket_end [OF bm(1,2) npos, of "year d"] by (simp add: p_def e_def)
  have "inRange p \<lparr>rangeStart = p, rangeEnd = e\<rparr>"
    using bm(4) by (simp add: inRange_def isSameOrAfter_def isSameOrBefore_def)
  moreover have "B x = p" if x: "wellFormed x" "inRange x \<lparr>rangeStart = p, rangeEnd = e\<rparr>" for x
  proof -
    have "year x = year d \<and> month x div n * n = k"
      using bm(6) [of x] x by (simp add: inRange_def isSameOrAfter_def isSameOrBefore_def)
    then show ?thesis using bm(1,3) by (simp add: P [OF x(1)] bucket_start p_def)
  qed
  ultimately show ?thesis unfolding Bd Rp by blast
qed

lemma range_inside_fibre:
  assumes "wellFormed d" and "g \<noteq> DAY"
  shows "(\<exists>r. getChildDateRange lib (getBelongingDate lib d c g) g c' = Some r
           \<and> inRange (getBelongingDate lib d c g) r
           \<and> (\<forall>x. wellFormed x \<and> inRange x r \<longrightarrow>
                 getBelongingDate lib x c g = getBelongingDate lib d c g))
         \<and> getBelongingDate lib \<lparr>year = y, month = 2, date = 31, msOfDay = t\<rparr> c QUARTER
             = \<lparr>year = y, month = 0, date = 1, msOfDay = 0\<rparr>"
proof
  show "getBelongingDate lib \<lparr>year = y, month = 2, date = 31, msOfDay = t\<rparr> c QUARTER
      = \<lparr>year = y, month = 0, date = 1, msOfDay = 0\<rparr>"
    by (simp add: bucket_start)
  show "\<exists>r. getChildDateRange lib (getBelongingDate lib d c g) g c' = Some r
           \<and> inRange (getBelongingDate lib d c g) r
           \<and> (\<forall>x. wellFormed x \<and> inRange x r \<longrightarrow>
                 getBelongingDate lib x c g = getBelongingDate lib d c g)"
  proof (cases g)
    case DAY
    then show ?thesis using assms(2) by simp
  next
    case WEEK
    define p where "p = startOfWeek (dow lib) d"
    note wr = week_range [OF assms(1), of "dow lib", folded p_def]
    have w0: "weekday (dow lib) p = 0" unfolding p_def by (rule weekday_startOfWeek [OF assms(1)])
    have m0: "msOfDay p = 0" by (simp add: p_def startOfWeek_def startOfDay_def)
    have "startOfWeek (dow lib) x = p"
      if "wellFormed x" "valueOf p \<le> valueOf x" "valueOf x \<le> valueOf (endOfWeek (dow lib) p)" for x
      by (rule week_member [OF wr(1) that(1) w0 m0 that(2,3)])
    then show ?thesis using wr WEEK
      by (simp add: p_def [symmetric] inRange_def isSameOrAfter_def isSameOrBefore_def)
  next
    case MONTH
    define p where "p = startOfMonth d"
    have mb: "0 \<le> month d" "month d < 12" using assms(1) by (simp_all add: wellFormed_def)
    have wp: "wellFormed p"
      using daysInMonth_bounds [OF mb, of "year d"] mb by (simp add: p_def startOfMonth_def wellFormed_def)
    have we: "wellFormed (endOfMonth p)"
      using daysInMonth_bounds [OF mb, of "year d"] mb
      by (simp add: p_def startOfMonth_def endOfMonth_def wellFormed_def)
    have pp: "startOfMonth p = p" by (simp add: p_def startOfMonth_def)
    have le: "valueOf p \<le> valueOf (endOfMonth p)"
      using daysInMonth_bounds [OF mb, of "year d"]
      by (intro valueOf_leI) (simp_all add: p_def startOfMonth_def endOfMonth_def dayNumber_def)
    have "startOfMonth x = p"
      if x: "wellFormed x" "valueOf p \<le> valueOf x" "valueOf x \<le> valueOf (endOfMonth p)" for x
    proof -
      have "year x = year p \<and> month p \<le> month x \<and> month x \<le> month (endOfMonth p)"
        by (rule between_fields [OF wp we x]) (simp add: endOfMonth_def)
      then show ?thesis by (simp add: p_def startOfMonth_def endOfMonth_def)
    qed
    then show ?thesis using pp le MONTH
      by (simp add: p_def [symmetric] inRange_def isSameOrAfter_def isSameOrBefore_def)
  next
    case QUARTER
    show ?thesis unfolding QUARTER
      by (rule bucket_case [where n = 3 and lib = lib, OF _ assms(1)]) (simp_all add: Let_def)
  next
    case HALF_YEAR
    show ?thesis unfolding HALF_YEAR
      by (rule bucket_case [where n = 6 and lib = lib, OF _ assms(1)]) (simp_all add: Let_def)
  next
    case YEAR
    define p where "p = startOfYear d"
    have wp: "wellFormed p" by (simp add: p_def startOfYear_def wellFormed_def daysInMonth_table)
    have we: "wellFormed (endOfYear p)"
      by (simp add: p_def startOfYear_def endOfYear_def wellFormed_def daysInMonth_table)
    have pp: "startOfYear p = p" by (simp add: p_def startOfYear_def)
    have "dayNumber p < dayNumber (endOfYear p)"
      using wp we by (intro dayNumber_less) (simp_all add: p_def startOfYear_def endOfYear_def)
    then have le: "valueOf p \<le> valueOf (endOfYear p)"
      by (intro valueOf_leI) (simp_all add: p_def startOfYear_def endOfYear_def)
    have "startOfYear x = p"
      if x: "wellFormed x" "valueOf p \<le> valueOf x" "valueOf x \<le> valueOf (endOfYear p)" for x
    proof -
      have "year x = year p \<and> month p \<le> month x \<and> month x \<le> month (endOfYear p)"
        by (rule between_fields [OF wp we x]) (simp add: endOfYear_def)
      then show ?thesis by (simp add: p_def startOfYear_def)
    qed
    then show ?thesis using pp le YEAR
      by (simp add: p_def [symmetric] inRange_def isSameOrAfter_def isSameOrBefore_def)
  qed
qed


lemma valueOf_fields:
  "year a = year b \<Longrightarrow> month a = month b \<Longrightarrow> date a = date b \<Longrightarrow> msOfDay a = msOfDay b
     \<Longrightarrow> valueOf a = valueOf b"
  by (simp add: valueOf_def dayNumber_def)

lemma in_span:
  assumes x: "wellFormed x" and k: "0 \<le> k" "k \<le> month x" and k': "month x \<le> k'" "k' < 12"
  shows "valueOf \<lparr>year = year x, month = k, date = 1, msOfDay = 0\<rparr> \<le> valueOf x"
    and "valueOf x \<le> valueOf \<lparr>year = year x, month = k', date = daysInMonth (year x) k',
                              msOfDay = 86399999\<rparr>"
proof -
  have xb: "1 \<le> date x" "date x \<le> daysInMonth (year x) (month x)" "0 \<le> month x" "month x < 12"
    "0 \<le> msOfDay x" "msOfDay x < 86400000"
    using x by (simp_all add: wellFormed_def)
  define p where "p = \<lparr>year = year x, month = k, date = 1, msOfDay = 0\<rparr>"
  define e where "e = \<lparr>year = year x, month = k', date = daysInMonth (year x) k',
                       msOfDay = 86399999\<rparr>"
  have wp: "wellFormed p" unfolding p_def using k xb by (intro wellFormed_first) simp_all
  have kb: "0 \<le> k'" using k k' by simp
  have we: "wellFormed e"
    using daysInMonth_bounds [OF kb k'(2), of "year x"] kb k' by (simp add: e_def wellFormed_def)
  have "dayNumber p \<le> dayNumber x"
  proof (cases "k < month x")
    case True
    then have "dayNumber p < dayNumber x"
      using wp x by (intro dayNumber_less) (simp_all add: p_def)
    then show ?thesis by simp
  next
    case False
    then have "k = month x" using k by simp
    then show ?thesis using xb by (simp add: p_def dayNumber_def)
  qed
  then show "valueOf \<lparr>year = year x, month = k, date = 1, msOfDay = 0\<rparr> \<le> valueOf x"
    unfolding p_def [symmetric] using xb by (intro valueOf_leI) (simp_all add: p_def)
  have "dayNumber x \<le> dayNumber e"
  proof (cases "month x < k'")
    case True
    then have "dayNumber x < dayNumber e"
      using we x by (intro dayNumber_less) (simp_all add: e_def)
    then show ?thesis by simp
  next
    case False
    then have "k' = month x" using k' by simp
    then show ?thesis using xb by (simp add: e_def dayNumber_def)
  qed
  then show "valueOf x \<le> valueOf \<lparr>year = year x, month = k', date = daysInMonth (year x) k',
                              msOfDay = 86399999\<rparr>"
    unfolding e_def [symmetric] using xb by (intro valueOf_leI) (simp_all add: e_def)
qed

lemma week_self:
  assumes "wellFormed x"
  shows "valueOf (startOfWeek w x) \<le> valueOf x"
    and "valueOf x \<le> valueOf (endOfWeek w (startOfWeek w x))"
proof -
  define p where "p = startOfWeek w x"
  have xb: "0 \<le> msOfDay x" "msOfDay x < 86400000" using assms by (simp_all add: wellFormed_def)
  have wd: "0 \<le> weekday w x" "weekday w x \<le> 6" by (simp_all add: weekday_def)
  have dp: "dayNumber p = dayNumber x - weekday w x"
    using dayNumber_addDays [OF assms, of "- weekday w x"]
    by (simp add: p_def startOfWeek_def startOfDay_def dayNumber_def)
  have wp: "wellFormed p" unfolding p_def by (rule week_range(1) [OF assms])
  have w0: "weekday w p = 0" unfolding p_def by (rule weekday_startOfWeek [OF assms])
  have de: "dayNumber (endOfWeek w p) = dayNumber p + 6"
    using dayNumber_addDays [OF wp, of 6] w0
    by (simp add: endOfWeek_def endOfDay_def dayNumber_def)
  show "valueOf (startOfWeek w x) \<le> valueOf x"
    unfolding p_def [symmetric] using dp wd xb
    by (intro valueOf_leI) (simp_all add: p_def startOfWeek_def startOfDay_def)
  show "valueOf x \<le> valueOf (endOfWeek w (startOfWeek w x))"
    unfolding p_def [symmetric] using dp de wd xb
    by (intro valueOf_leI) (simp_all add: endOfWeek_def endOfDay_def)
qed

lemma bucket_floor:
  fixes a n :: int
  assumes "n = 3 \<or> n = 6"
  shows "a div n * n \<le> a" "a \<le> a div n * n + n - 1"
  using assms by presburger+

lemma bucket_self:
  fixes n :: int
  assumes n: "n = 3 \<or> n = 6" and x: "wellFormed x"
    and P: "\<And>x. wellFormed x \<Longrightarrow> B x = startOfDay (setDate (setMonth (setYear (now lib) (year x)) (month x div n * n)) 1)"
    and R: "\<And>x. R x = Some \<lparr>rangeStart = startOfDay (setDate (setMonth (setYear (now lib) (year x)) (month x div n * n)) 1),
           rangeEnd = endOfDay (addDays (addMonths (startOfDay (setDate (setMonth (setYear (now lib) (year x)) (month x div n * n)) 1)) n) (- 1))\<rparr>"
  shows "\<exists>r. R (B x) = Some r \<and> inRange x r"
proof -
  define k where "k = month x div n * n"
  define p where "p = \<lparr>year = year x, month = k, date = 1, msOfDay = 0\<rparr>"
  define e where "e = \<lparr>year = year x, month = k + n - 1, date = daysInMonth (year x) (k + n - 1),
                   msOfDay = 86399999\<rparr>"
  note bm = bucket_member [OF n x, folded k_def, folded p_def e_def]
  have npos: "0 < n" using n by auto
  have Bx: "B x = p" using bm(1,3) by (simp add: P [OF x] bucket_start k_def [symmetric] p_def)
  have start: "startOfDay (setDate (setMonth (setYear (now lib) (year p)) (month p div n * n)) 1) = p"
    using bm(1,3,5) by (simp add: p_def bucket_start)
  have Rp: "R p = Some \<lparr>rangeStart = p, rangeEnd = e\<rparr>"
    unfolding R start using bucket_end [OF bm(1,2) npos, of "year x"] by (simp add: p_def e_def)
  have kx: "k \<le> month x" "month x \<le> k + n - 1"
    unfolding k_def by (rule bucket_floor [OF n])+
  have ke: "k + n - 1 < 12" using bm(2) by simp
  have "inRange x \<lparr>rangeStart = p, rangeEnd = e\<rparr>"
    using in_span [OF x bm(1) kx(1) kx(2) ke]
    by (simp add: inRange_def isSameOrAfter_def isSameOrBefore_def p_def e_def)
  then show ?thesis unfolding Bx Rp by simp
qed

lemma self_in_range:
  assumes x: "wellFormed x" and g: "g \<noteq> DAY"
  shows "\<exists>r. getChildDateRange lib (getBelongingDate lib x c g) g c' = Some r \<and> inRange x r"
proof (cases g)
  case DAY
  then show ?thesis using g by simp
next
  case WEEK
  have "startOfWeek (dow lib) (startOfWeek (dow lib) x) = startOfWeek (dow lib) x"
    by (rule week_range(2) [OF x])
  then show ?thesis using WEEK week_self [OF x, of "dow lib"]
    by (simp add: inRange_def isSameOrAfter_def isSameOrBefore_def)
next
  case MONTH
  have xb: "0 \<le> month x" "month x < 12" using x by (simp_all add: wellFormed_def)
  have a: "valueOf (startOfMonth (startOfMonth x))
      = valueOf \<lparr>year = year x, month = month x, date = 1, msOfDay = 0\<rparr>"
    by (rule valueOf_fields) (simp_all add: startOfMonth_def)
  have b: "valueOf (endOfMonth (startOfMonth x))
      = valueOf \<lparr>year = year x, month = month x, date = daysInMonth (year x) (month x),
                  msOfDay = 86399999\<rparr>"
    by (rule valueOf_fields) (simp_all add: startOfMonth_def endOfMonth_def)
  show ?thesis using MONTH in_span [OF x xb(1) order_refl order_refl xb(2)]
    by (simp add: inRange_def isSameOrAfter_def isSameOrBefore_def a b)
next
  case QUARTER
  show ?thesis unfolding QUARTER
    by (rule bucket_self [where n = 3 and lib = lib, OF _ x]) (simp_all add: Let_def)
next
  case HALF_YEAR
  show ?thesis unfolding HALF_YEAR
    by (rule bucket_self [where n = 6 and lib = lib, OF _ x]) (simp_all add: Let_def)
next
  case YEAR
  have xb: "0 \<le> month x" "month x < 12" using x by (simp_all add: wellFormed_def)
  have a: "valueOf (startOfYear (startOfYear x))
      = valueOf \<lparr>year = year x, month = 0, date = 1, msOfDay = 0\<rparr>"
    by (rule valueOf_fields) (simp_all add: startOfYear_def)
  have b: "valueOf (endOfYear (startOfYear x))
      = valueOf \<lparr>year = year x, month = 11, date = daysInMonth (year x) 11,
                  msOfDay = 86399999\<rparr>"
    by (rule valueOf_fields) (simp_all add: startOfYear_def endOfYear_def daysInMonth_table)
  have xl: "month x \<le> 11" using xb by simp
  show ?thesis using YEAR in_span [OF x order_refl xb(1) xl, simplified]
    by (simp add: inRange_def isSameOrAfter_def isSameOrBefore_def a b)
qed

text \<open>
  Claim C5. For every well-formed date and every parent granularity that has a range
  (every granularity but the day), the child range of the parent boundary is defined,
  the parent boundary lies inside it, every well-formed date inside it has the same
  parent boundary, and every well-formed date with the same parent boundary lies inside
  it: the range is exactly the set of dates that map to this parent. A date on 31 March
  has its quarter start on 1 January (month 0) of the same year: it falls into the first
  quarter.
\<close>

theorem childRange_inverse:
  assumes "wellFormed d" and "g \<noteq> DAY"
  shows "(\<exists>r. getChildDateRange lib (getBelongingDate lib d c g) g c' = Some r
           \<and> inRange (getBelongingDate lib d c g) r
           \<and> (\<forall>x. wellFormed x \<and> inRange x r \<longrightarrow>
                 getBelongingDate lib x c g = getBelongingDate lib d c g)
           \<and> (\<forall>x. wellFormed x \<and> getBelongingDate lib x c g = getBelongingDate lib d c g
                 \<longrightarrow> inRange x r))
         \<and> getBelongingDate lib \<lparr>year = y, month = 2, date = 31, msOfDay = t\<rparr> c QUARTER
             = \<lparr>year = y, month = 0, date = 1, msOfDay = 0\<rparr>"
proof -
  obtain r where r: "getChildDateRange lib (getBelongingDate lib d c g) g c' = Some r"
    and p: "inRange (getBelongingDate lib d c g) r"
    and f: "\<forall>x. wellFormed x \<and> inRange x r \<longrightarrow>
                 getBelongingDate lib x c g = getBelongingDate lib d c g"
    and m: "getBelongingDate lib \<lparr>year = y, month = 2, date = 31, msOfDay = t\<rparr> c QUARTER
             = \<lparr>year = y, month = 0, date = 1, msOfDay = 0\<rparr>"
    using range_inside_fibre [OF assms, of lib c c' y t] by blast
  have "inRange x r"
    if x: "wellFormed x" "getBelongingDate lib x c g = getBelongingDate lib d c g" for x
  proof -
    obtain r' where "getChildDateRange lib (getBelongingDate lib x c g) g c' = Some r'"
      and "inRange x r'"
      using self_in_range [OF x(1) assms(2), of lib c c'] by blast
    then show ?thesis using r x(2) by simp
  qed
  then show ?thesis using r p f m by blast
qed

theorem childRange_inverse_witness:
  "wellFormed \<lparr>year = 2024, month = 2, date = 31, msOfDay = 0\<rparr> \<and> QUARTER \<noteq> DAY
   \<and> (\<exists>r. getChildDateRange exampleLib
             (getBelongingDate exampleLib \<lparr>year = 2024, month = 2, date = 31, msOfDay = 0\<rparr> DAY QUARTER)
             QUARTER DAY = Some r
         \<and> inRange (getBelongingDate exampleLib
                      \<lparr>year = 2024, month = 2, date = 31, msOfDay = 0\<rparr> DAY QUARTER) r
         \<and> inRange \<lparr>year = 2024, month = 2, date = 31, msOfDay = 0\<rparr> r
         \<and> (\<forall>x. wellFormed x \<and> inRange x r \<longrightarrow>
               getBelongingDate exampleLib x DAY QUARTER
               = getBelongingDate exampleLib \<lparr>year = 2024, month = 2, date = 31, msOfDay = 0\<rparr>
                   DAY QUARTER)
         \<and> (\<forall>x. wellFormed x \<and> getBelongingDate exampleLib x DAY QUARTER
               = getBelongingDate exampleLib \<lparr>year = 2024, month = 2, date = 31, msOfDay = 0\<rparr>
                   DAY QUARTER \<longrightarrow> inRange x r))
   \<and> getBelongingDate exampleLib \<lparr>year = 2024, month = 2, date = 31, msOfDay = 0\<rparr> DAY QUARTER
       = \<lparr>year = 2024, month = 0, date = 1, msOfDay = 0\<rparr>"
proof -
  have w: "wellFormed \<lparr>year = 2024, month = 2, date = 31, msOfDay = 0\<rparr>"
    by (simp add: wellFormed_def daysInMonth_def)
  have h: "QUARTER \<noteq> DAY" by simp
  show ?thesis
    using w h childRange_inverse [OF w h, of exampleLib DAY DAY 2024 0] by blast
qed
section \<open>Refreshing a belonging note\<close>








lemma refresh_fields:
  assumes "parseDateFromFilename lib (basename b) (belongingNoteDateFormat stream) = Some d"
    and "getChildDateRange lib d (belongingNoteType stream) (noteType stream) = Some r"
  shows "updateBelongingNoteContent lib vault b stream fm =
     fm(''date-range'' \<mapsto> YObj [(''start'', YStr (formatDateForFilename lib (rangeStart r) (dateFormat stream))),
                                 (''end'', YStr (formatDateForFilename lib (rangeEnd r) (dateFormat stream)))],
        ''child-notes'' \<mapsto> YList (map childLink (childNotesOf lib vault stream r)))"
  using assms by (auto simp: updateBelongingNoteContent_def Let_def fun_eq_iff)

section \<open>Evaluation at the example vaults\<close>

lemma journal_fields:
  "folderPath journal = ''J''" "noteType journal = DAY" "dateFormat journal = ''YYYY-MM-DD''"
  "overwriteExisting journal = False" "beforeFieldName journal = ''before''"
  "afterFieldName journal = ''after''" "belongingNoteFolder journal = []"
  "belongingNoteType journal = MONTH" "belongingNoteDateFormat journal = ''YYYY-MM''"
  "enableBelongingNotes journal = True"
  by (simp_all add: journal_def)

lemma mdFile_fields: "path (mdFile d b) = d @ ''/'' @ b @ ''.md''" "basename (mdFile d b) = b"
  by (simp_all add: mdFile_def)

lemma parse_days:
  "parseDateFromFilename exampleLib ''2024-01-01'' ''YYYY-MM-DD''
     = Some \<lparr>year = 2024, month = 0, date = 1, msOfDay = 0\<rparr>"
  "parseDateFromFilename exampleLib ''2024-01-02'' ''YYYY-MM-DD''
     = Some \<lparr>year = 2024, month = 0, date = 2, msOfDay = 0\<rparr>"
  "parseDateFromFilename exampleLib ''2024-01-03'' ''YYYY-MM-DD''
     = Some \<lparr>year = 2024, month = 0, date = 3, msOfDay = 0\<rparr>"
  by code_simp+

lemma neighbour_names:
  "formatDateForFilename exampleLib
     (getPreviousDate \<lparr>year = 2024, month = 0, date = 1, msOfDay = 0\<rparr> DAY) ''YYYY-MM-DD''
     = ''2023-12-31''"
  "formatDateForFilename exampleLib
     (getNextDate \<lparr>year = 2024, month = 0, date = 1, msOfDay = 0\<rparr> DAY) ''YYYY-MM-DD''
     = ''2024-01-02''"
  "formatDateForFilename exampleLib
     (getPreviousDate \<lparr>year = 2024, month = 0, date = 2, msOfDay = 0\<rparr> DAY) ''YYYY-MM-DD''
     = ''2024-01-01''"
  "formatDateForFilename exampleLib
     (getNextDate \<lparr>year = 2024, month = 0, date = 2, msOfDay = 0\<rparr> DAY) ''YYYY-MM-DD''
     = ''2024-01-03''"
  "formatDateForFilename exampleLib
     (getPreviousDate \<lparr>year = 2024, month = 0, date = 3, msOfDay = 0\<rparr> DAY) ''YYYY-MM-DD''
     = ''2024-01-02''"
  "formatDateForFilename exampleLib
     (getNextDate \<lparr>year = 2024, month = 0, date = 3, msOfDay = 0\<rparr> DAY) ''YYYY-MM-DD''
     = ''2024-01-04''"
  by code_simp+

lemma resolve_neighbourVault:
  "resolveNotePath neighbourVault ''J'' ''2023-12-31'' = ''J/2023-12-31.md''"
  "resolveNotePath neighbourVault ''J'' ''2024-01-01'' = ''J/2024-01-01.md''"
  "resolveNotePath neighbourVault ''J'' ''2024-01-02'' = ''J/2024-01-02.md''"
  "resolveNotePath neighbourVault ''J'' ''2024-01-03'' = ''J/2024-01-03.md''"
  "resolveNotePath neighbourVault ''J'' ''2024-01-04'' = ''J/2024-01-04.md''"
  "isTFile neighbourVault ''J/2023-12-31.md'' = False"
  "isTFile neighbourVault ''J/2024-01-01.md''"
  "isTFile neighbourVault ''J/2024-01-02.md''"
  "isTFile neighbourVault ''J/2024-01-03.md''"
  "isTFile neighbourVault ''J/2024-01-04.md'' = False"
  by code_simp+

lemmas update_defs =
  updateNoteLinks_def beginUpdate_def endUpdate_def patchLinks_def linksCallback_def
  updateLinkField_def fieldTruthy_def journal_fields mdFile_fields parse_days neighbour_names

lemma update_0101:
  "updateNoteLinks \<lparr>isUpdating = False\<rparr> exampleLib neighbourVault (mdFile ''J'' ''2024-01-01'')
     journal Map.empty
   = (\<lparr>isUpdating = False\<rparr>, [''after'' \<mapsto> YStr ''[[J/2024-01-02.md|2024-01-02]]''])"
  by (simp add: update_defs resolve_neighbourVault del: getPreviousDate.simps getNextDate.simps)

lemma update_0102:
  "updateNoteLinks \<lparr>isUpdating = False\<rparr> exampleLib neighbourVault (mdFile ''J'' ''2024-01-02'')
     journal Map.empty
   = (\<lparr>isUpdating = False\<rparr>,
      [''before'' \<mapsto> YStr ''[[J/2024-01-01.md|2024-01-01]]'',
       ''after'' \<mapsto> YStr ''[[J/2024-01-03.md|2024-01-03]]''])"
  by (simp add: update_defs resolve_neighbourVault del: getPreviousDate.simps getNextDate.simps)

lemma update_0103:
  "updateNoteLinks \<lparr>isUpdating = False\<rparr> exampleLib neighbourVault (mdFile ''J'' ''2024-01-03'')
     journal Map.empty
   = (\<lparr>isUpdating = False\<rparr>, [''before'' \<mapsto> YStr ''[[J/2024-01-02.md|2024-01-02]]''])"
  by (simp add: update_defs resolve_neighbourVault del: getPreviousDate.simps getNextDate.simps)

lemma linkedStore_values:
  "linkedStore ''J/2024-01-01.md'' = [''after'' \<mapsto> YStr ''[[J/2024-01-02.md|2024-01-02]]'']"
  "linkedStore ''J/2024-01-02b.md''
     = [''before'' \<mapsto> YStr ''[[J/2024-01-01.md|2024-01-01]]'',
        ''after'' \<mapsto> YStr ''[[J/2024-01-03.md|2024-01-03]]'']"
  "linkedStore ''J/2024-01-03.md'' = [''before'' \<mapsto> YStr ''[[J/2024-01-02.md|2024-01-02]]'']"
  by (simp_all add: linkedStore_def update_0101 update_0102 update_0103)

lemma rename_strings:
  "strIncludes ''[[J/2024-01-02.md|2024-01-02]]'' ''2024-01-02''"
  "strIncludes ''[[J/2024-01-01.md|2024-01-01]]'' ''2024-01-02'' = False"
  "strIncludes ''[[J/2024-01-03.md|2024-01-03]]'' ''2024-01-02'' = False"
  "strReplace ''[[J/2024-01-02.md|2024-01-02]]'' ''[[2024-01-02]]'' ''[[2024-01-02b]]''
     = ''[[J/2024-01-02.md|2024-01-02]]''"
  "strIncludes ''[[J/2024-01-02.md|2024-01-02]]'' ''2024-01-02b'' = False"
  by code_simp+

lemma rename_files:
  "filter (\<lambda>f. strStartsWith (path f) ''J'') renamedVault = renamedVault"
  "strStartsWith ''J/2024-01-02.md'' ''J''"
  "oldBasenameOf ''J/2024-01-02.md'' = ''2024-01-02''"
  by code_simp+

lemma renameField_absent: "fm key = None \<Longrightarrow> renameField key old new fm = Inr fm"
  by (simp add: renameField_def)

lemma renameField_same:
  assumes "fm key = Some (YStr s)"
    and "strReplace s (''[['' @ old @ '']]'') (''[['' @ new @ '']]'') = s"
  shows "renameField key old new fm = Inr fm"
proof -
  have "fm(key \<mapsto> YStr s) = fm" using assms(1) by (rule map_upd_triv)
  then show ?thesis using assms by (simp add: renameField_def)
qed

lemma renameField_skip:
  assumes "fm key = Some (YStr s)" and "strIncludes s old = False"
  shows "renameField key old new fm = Inr fm"
  using assms by (simp add: renameField_def)

lemma rename_callbacks:
  "renameCallback journal ''2024-01-02'' ''2024-01-02b'' (linkedStore ''J/2024-01-01.md'')
     = Inr (linkedStore ''J/2024-01-01.md'')"
  "renameCallback journal ''2024-01-02'' ''2024-01-02b'' (linkedStore ''J/2024-01-02b.md'')
     = Inr (linkedStore ''J/2024-01-02b.md'')"
  "renameCallback journal ''2024-01-02'' ''2024-01-02b'' (linkedStore ''J/2024-01-03.md'')
     = Inr (linkedStore ''J/2024-01-03.md'')"
proof -
  have r: "strReplace ''[[J/2024-01-02.md|2024-01-02]]'' (''[['' @ ''2024-01-02'' @ '']]'')
      (''[['' @ ''2024-01-02b'' @ '']]'') = ''[[J/2024-01-02.md|2024-01-02]]''"
    using rename_strings(4) by simp
  have a: "renameField ''before'' ''2024-01-02'' ''2024-01-02b'' (linkedStore ''J/2024-01-01.md'')
      = Inr (linkedStore ''J/2024-01-01.md'')"
    by (rule renameField_absent) (simp add: linkedStore_values)
  have b: "renameField ''after'' ''2024-01-02'' ''2024-01-02b'' (linkedStore ''J/2024-01-01.md'')
      = Inr (linkedStore ''J/2024-01-01.md'')"
    by (rule renameField_same [OF _ r]) (simp add: linkedStore_values)
  show "renameCallback journal ''2024-01-02'' ''2024-01-02b'' (linkedStore ''J/2024-01-01.md'')
     = Inr (linkedStore ''J/2024-01-01.md'')"
    by (simp add: renameCallback_def journal_fields a b)
  have c: "renameField ''before'' ''2024-01-02'' ''2024-01-02b'' (linkedStore ''J/2024-01-02b.md'')
      = Inr (linkedStore ''J/2024-01-02b.md'')"
    by (rule renameField_skip [OF _ rename_strings(2)]) (simp add: linkedStore_values)
  have d: "renameField ''after'' ''2024-01-02'' ''2024-01-02b'' (linkedStore ''J/2024-01-02b.md'')
      = Inr (linkedStore ''J/2024-01-02b.md'')"
    by (rule renameField_skip [OF _ rename_strings(3)]) (simp add: linkedStore_values)
  show "renameCallback journal ''2024-01-02'' ''2024-01-02b'' (linkedStore ''J/2024-01-02b.md'')
     = Inr (linkedStore ''J/2024-01-02b.md'')"
    by (simp add: renameCallback_def journal_fields c d)
  have e: "renameField ''before'' ''2024-01-02'' ''2024-01-02b'' (linkedStore ''J/2024-01-03.md'')
      = Inr (linkedStore ''J/2024-01-03.md'')"
    by (rule renameField_same [OF _ r]) (simp add: linkedStore_values)
  have f: "renameField ''after'' ''2024-01-02'' ''2024-01-02b'' (linkedStore ''J/2024-01-03.md'')
      = Inr (linkedStore ''J/2024-01-03.md'')"
    by (rule renameField_absent) (simp add: linkedStore_values)
  show "renameCallback journal ''2024-01-02'' ''2024-01-02b'' (linkedStore ''J/2024-01-03.md'')
     = Inr (linkedStore ''J/2024-01-03.md'')"
    by (simp add: renameCallback_def journal_fields e f)
qed

lemma rename_result:
  "handleNoteRename renamedVault (mdFile ''J'' ''2024-01-02b'') ''J/2024-01-02.md'' [journal]
     linkedStore = (linkedStore, None)"
proof -
  have "renameInFiles journal ''2024-01-02'' ''2024-01-02b'' renamedVault linkedStore
      = (linkedStore, None)"
    by (simp add: renamedVault_def mdFile_fields rename_callbacks)
  then show ?thesis
    by (simp add: journal_fields rename_files mdFile_fields)
qed

lemma resolve_siblingVault:
  "resolveNotePath siblingVault ''J'' ''2024-01-01'' = ''J2/2024-01-01.md''"
  "resolveNotePath siblingVault ''J'' ''2024-01-03'' = ''J/2024-01-03.md''"
  "isTFile siblingVault ''J2/2024-01-01.md''"
  "isTFile siblingVault ''J/2024-01-03.md'' = False"
  by code_simp+

lemma update_sibling:
  "updateNoteLinks \<lparr>isUpdating = False\<rparr> exampleLib siblingVault (mdFile ''J'' ''2024-01-02'')
     journal Map.empty
   = (\<lparr>isUpdating = False\<rparr>, [''before'' \<mapsto> YStr ''[[J2/2024-01-01.md|2024-01-01]]''])"
  by (simp add: update_defs resolve_siblingVault del: getPreviousDate.simps getNextDate.simps)

lemma belonging_name:
  "formatDateForFilename exampleLib
     (getBelongingDate exampleLib \<lparr>year = 2024, month = 0, date = 2, msOfDay = 0\<rparr> DAY MONTH)
     ''YYYY-MM'' = ''2024-01''"
  by code_simp

lemma belonging_find:
  "find (\<lambda>f. basename f = ''2024-01'' \<and> strStartsWith (path f) ''J''
              \<and> path f \<noteq> ''J/2024-01.md'') siblingVault
     = Some (mdFile ''J2'' ''2024-01'')"
  by code_simp

lemma belonging_sibling:
  "belongingNotePath exampleLib siblingVault (mdFile ''J'' ''2024-01-02'') journal
     = Some ''J2/2024-01.md''"
  by (simp add: belongingNotePath_def journal_fields mdFile_fields parse_days belonging_name
      belonging_find del: getBelongingDate.simps)

lemma prefix_facts:
  "strStartsWith ''J2/2024-01-01.md'' ''J''"
  "strStartsWith ''J2/2024-01-01.md'' ''J/'' = False"
  "strStartsWith ''J2/2024-01.md'' ''J/'' = False"
  by code_simp+

lemma parse_month:
  "parseDateFromFilename exampleLib ''2024-01'' ''YYYY-MM''
     = Some \<lparr>year = 2024, month = 0, date = 1, msOfDay = 0\<rparr>"
  by code_simp

lemma january_range:
  "getChildDateRange exampleLib \<lparr>year = 2024, month = 0, date = 1, msOfDay = 0\<rparr> MONTH DAY
     = Some \<lparr>rangeStart = \<lparr>year = 2024, month = 0, date = 1, msOfDay = 0\<rparr>,
             rangeEnd = \<lparr>year = 2024, month = 0, date = 31, msOfDay = 86399999\<rparr>\<rparr>"
  by code_simp

lemma january_children:
  "childNotesOf exampleLib januaryVault journal
       \<lparr>rangeStart = \<lparr>year = 2024, month = 0, date = 1, msOfDay = 0\<rparr>,
        rangeEnd = \<lparr>year = 2024, month = 0, date = 31, msOfDay = 86399999\<rparr>\<rparr>
     = [mdFile ''J'' ''2024-01-05'', mdFile ''J/sub'' ''2024-01-07'', mdFile ''J'' ''2024-01-09'']"
  by code_simp

lemma january_links:
  "childLink (mdFile ''J'' ''2024-01-05'') = YStr ''[[J/2024-01-05|2024-01-05]]''"
  "childLink (mdFile ''J/sub'' ''2024-01-07'') = YStr ''[[J/sub/2024-01-07|2024-01-07]]''"
  "childLink (mdFile ''J'' ''2024-01-09'') = YStr ''[[J/2024-01-09|2024-01-09]]''"
  by code_simp+

lemma january_bounds:
  "formatDateForFilename exampleLib \<lparr>year = 2024, month = 0, date = 1, msOfDay = 0\<rparr>
     ''YYYY-MM-DD'' = ''2024-01-01''"
  "formatDateForFilename exampleLib \<lparr>year = 2024, month = 0, date = 31, msOfDay = 86399999\<rparr>
     ''YYYY-MM-DD'' = ''2024-01-31''"
  by code_simp+

lemma january_refresh:
  "updateBelongingNoteContent exampleLib januaryVault (mdFile ''J'' ''2024-01'') journal fm
     = fm(''date-range'' \<mapsto> YObj [(''start'', YStr ''2024-01-01''), (''end'', YStr ''2024-01-31'')],
          ''child-notes'' \<mapsto> YList [YStr ''[[J/2024-01-05|2024-01-05]]'',
             YStr ''[[J/sub/2024-01-07|2024-01-07]]'', YStr ''[[J/2024-01-09|2024-01-09]]''])"
proof -
  have p: "parseDateFromFilename exampleLib (basename (mdFile ''J'' ''2024-01''))
      (belongingNoteDateFormat journal) = Some \<lparr>year = 2024, month = 0, date = 1, msOfDay = 0\<rparr>"
    by (simp only: mdFile_fields journal_fields parse_month)
  have g: "getChildDateRange exampleLib \<lparr>year = 2024, month = 0, date = 1, msOfDay = 0\<rparr>
      (belongingNoteType journal) (noteType journal)
     = Some \<lparr>rangeStart = \<lparr>year = 2024, month = 0, date = 1, msOfDay = 0\<rparr>,
             rangeEnd = \<lparr>year = 2024, month = 0, date = 31, msOfDay = 86399999\<rparr>\<rparr>"
    by (simp only: journal_fields january_range)
  show ?thesis
    unfolding refresh_fields [OF p g]
    by (simp add: journal_fields january_children january_links january_bounds)
qed

lemma direct_facts:
  "directlyInFolder ''J'' ''J/sub/2024-01-07.md'' = False"
  "directlyInFolder ''J'' ''J/2024-01-05.md''"
  by code_simp+

lemma halfYear_parses:
  "parseDateFromFilename exampleLib ''2024-H1-extra'' ''YYYY-[H]H''
     = Some \<lparr>year = 2024, month = 0, date = 1, msOfDay = 43200000\<rparr>"
  "parseDateFromFilename exampleLib ''garbage-H1'' ''YYYY-[H]H''
     = Some \<lparr>year = 2026, month = 0, date = 1, msOfDay = 43200000\<rparr>"
  "parseDateFromFilename exampleLib ''24-H2'' ''YYYY-[H]H''
     = Some \<lparr>year = 24, month = 6, date = 1, msOfDay = 43200000\<rparr>"
  "parseDateFromFilename exampleLib ''2024-H1'' ''YYYY-[H]H''
     = Some \<lparr>year = 2024, month = 0, date = 1, msOfDay = 43200000\<rparr>"
  "parseDateFromFilename exampleLib ''2024-H2'' ''YYYY-[H]H''
     = Some \<lparr>year = 2024, month = 6, date = 1, msOfDay = 43200000\<rparr>"
  "parseDateFromFilename exampleLib ''2024-H3'' ''YYYY-[H]H'' = None"
  by code_simp+

lemma halfYear_formats:
  "formatDateForFilename exampleLib \<lparr>year = 2024, month = 0, date = 1, msOfDay = 43200000\<rparr>
     ''YYYY-[H]H'' = ''2024-H1''"
  "formatDateForFilename exampleLib \<lparr>year = 24, month = 6, date = 1, msOfDay = 43200000\<rparr>
     ''YYYY-[H]H'' = ''0024-H2''"
  "formatDateForFilename exampleLib \<lparr>year = 2024, month = 6, date = 1, msOfDay = 43200000\<rparr>
     ''YYYY-[H]H'' = ''2024-H2''"
  "formatDateForFilename exampleLib \<lparr>year = 2024, month = 5, date = 30, msOfDay = 0\<rparr>
     ''YYYY-[H]H'' = ''2024-H1''"
  by code_simp+

section \<open>Idempotent refresh\<close>



section \<open>Updating the link fields\<close>

lemma updateLinkField_keeps:
  assumes "\<not> overwriteExisting stream" "fm key = Some v" "truthy v"
  shows "updateLinkField stream vault fieldName noteName fm key = Some v"
  using assms by (cases "fieldName = key") (auto simp: updateLinkField_def fieldTruthy_def Let_def)

lemma linksCallback_keeps:
  assumes "\<not> overwriteExisting stream" "fm key = Some v" "truthy v"
  shows "linksCallback stream vault prevNoteName nextNoteName fm key = Some v"
proof -
  have "updateLinkField stream vault (beforeFieldName stream) prevNoteName fm key = Some v"
    using assms by (rule updateLinkField_keeps)
  with assms(1) show ?thesis
    unfolding linksCallback_def using assms(3) by (rule updateLinkField_keeps)
qed

text \<open>
  Claim C7, as the code has it. With \<^verbatim>\<open>overwriteExisting\<close> off, a metadata field that
  holds a true value (a non-empty string, a non-zero number, \<^verbatim>\<open>true\<close>, a list or an
  object) has exactly the same value after \<^verbatim>\<open>updateNoteLinks\<close>; this covers the
  before-field and the after-field, also when the value references a document that
  does not exist.
\<close>

theorem existing_link_kept:
  assumes "\<not> overwriteExisting stream" and "fm key = Some v" and "truthy v"
  shows "snd (updateNoteLinks nm lib vault file stream fm) key = Some v"
proof -
  have "linksCallback stream vault p n fm key = Some v" for p n
    using assms by (rule linksCallback_keeps)
  then show ?thesis using assms(2)
    by (auto simp: updateNoteLinks_def patchLinks_def Let_def split: option.splits)
qed


theorem existing_link_kept_witness:
  "\<not> overwriteExisting journal
   \<and> [''before'' \<mapsto> YStr ''[[Archive/1999-12-31.md|1999-12-31]]''] ''before''
       = Some (YStr ''[[Archive/1999-12-31.md|1999-12-31]]'')
   \<and> truthy (YStr ''[[Archive/1999-12-31.md|1999-12-31]]'')
   \<and> \<not> isTFile neighbourVault ''Archive/1999-12-31.md''
   \<and> snd (updateNoteLinks \<lparr>isUpdating = False\<rparr> exampleLib neighbourVault
           (mdFile ''J'' ''2024-01-02'') journal
           [''before'' \<mapsto> YStr ''[[Archive/1999-12-31.md|1999-12-31]]'']) ''before''
       = Some (YStr ''[[Archive/1999-12-31.md|1999-12-31]]'')"
proof -
  have o: "\<not> overwriteExisting journal" by (simp add: journal_def)
  have v: "[''before'' \<mapsto> YStr ''[[Archive/1999-12-31.md|1999-12-31]]''] ''before''
       = Some (YStr ''[[Archive/1999-12-31.md|1999-12-31]]'')" by simp
  have t: "truthy (YStr ''[[Archive/1999-12-31.md|1999-12-31]]'')" by simp
  have n: "\<not> isTFile neighbourVault ''Archive/1999-12-31.md''" by code_simp
  show ?thesis
    using o v t n existing_link_kept [of journal
        "[''before'' \<mapsto> YStr ''[[Archive/1999-12-31.md|1999-12-31]]'']" "''before''"
        "YStr ''[[Archive/1999-12-31.md|1999-12-31]]''" "\<lparr>isUpdating = False\<rparr>" exampleLib
        neighbourVault "mdFile ''J'' ''2024-01-02''"]
    by blast
qed

text \<open>
  The claim as the specification states it fails for a field that is present with an
  empty value: the empty string is false in the callback's test, so the field is
  recomputed and overwritten when the neighbour exists.
\<close>

theorem empty_link_overwritten:
  "overwriteExisting journal = False
   \<and> [''before'' \<mapsto> YStr []] ''before'' = Some (YStr [])
   \<and> snd (updateNoteLinks \<lparr>isUpdating = False\<rparr> exampleLib neighbourVault
           (mdFile ''J'' ''2024-01-02'') journal [''before'' \<mapsto> YStr []]) ''before''
       = Some (YStr ''[[J/2024-01-01.md|2024-01-01]]'')"
  by (simp add: update_defs resolve_neighbourVault del: getPreviousDate.simps getNextDate.simps)

section \<open>The re-entrancy flag\<close>

text \<open>
  Claim C9, as the code has it. An invocation that finds the flag set returns at once
  and changes nothing. An invocation that passes the validation sets the flag, so every
  invocation nested in it is suppressed, and it ends with the \<^verbatim>\<open>finally\<close> block right
  after the metadata rewrite: when an invocation that found the flag clear settles, the
  flag is clear again. There is no settling step between the rewrite and the release.
\<close>

theorem guard_released_on_completion:
  "(isUpdating nm \<longrightarrow> updateNoteLinks nm lib vault file stream fm = (nm, fm))
   \<and> (\<forall>nm' d. beginUpdate nm lib file stream = Some (nm', d) \<longrightarrow>
         isUpdating nm'
         \<and> updateNoteLinks nm' lib' vault' file' stream' fm' = (nm', fm')
         \<and> updateNoteLinks nm lib vault file stream fm
             = (endUpdate nm', patchLinks lib vault stream d fm))
   \<and> (\<not> isUpdating nm \<longrightarrow> \<not> isUpdating (fst (updateNoteLinks nm lib vault file stream fm)))"
  by (auto simp: updateNoteLinks_def beginUpdate_def endUpdate_def split: option.splits if_splits)

theorem guard_released_on_completion_witness:
  "beginUpdate \<lparr>isUpdating = False\<rparr> exampleLib (mdFile ''J'' ''2024-01-02'') journal
     = Some (\<lparr>isUpdating = True\<rparr>, \<lparr>year = 2024, month = 0, date = 2, msOfDay = 0\<rparr>)
   \<and> isUpdating \<lparr>isUpdating = True\<rparr>
   \<and> updateNoteLinks \<lparr>isUpdating = True\<rparr> exampleLib neighbourVault
       (mdFile ''J'' ''2024-01-02'') journal Map.empty = (\<lparr>isUpdating = True\<rparr>, Map.empty)
   \<and> updateNoteLinks \<lparr>isUpdating = False\<rparr> exampleLib neighbourVault
       (mdFile ''J'' ''2024-01-02'') journal Map.empty
     = (endUpdate \<lparr>isUpdating = True\<rparr>,
        patchLinks exampleLib neighbourVault journal
          \<lparr>year = 2024, month = 0, date = 2, msOfDay = 0\<rparr> Map.empty)"
proof -
  have b: "beginUpdate \<lparr>isUpdating = False\<rparr> exampleLib (mdFile ''J'' ''2024-01-02'') journal
     = Some (\<lparr>isUpdating = True\<rparr>, \<lparr>year = 2024, month = 0, date = 2, msOfDay = 0\<rparr>)"
    by (simp add: beginUpdate_def journal_fields mdFile_fields parse_days)
  have c: "isUpdating \<lparr>isUpdating = True\<rparr>
     \<and> updateNoteLinks \<lparr>isUpdating = True\<rparr> exampleLib neighbourVault
         (mdFile ''J'' ''2024-01-02'') journal Map.empty = (\<lparr>isUpdating = True\<rparr>, Map.empty)
     \<and> updateNoteLinks \<lparr>isUpdating = False\<rparr> exampleLib neighbourVault
         (mdFile ''J'' ''2024-01-02'') journal Map.empty
       = (endUpdate \<lparr>isUpdating = True\<rparr>,
          patchLinks exampleLib neighbourVault journal
            \<lparr>year = 2024, month = 0, date = 2, msOfDay = 0\<rparr> Map.empty)"
    using b guard_released_on_completion [of "\<lparr>isUpdating = False\<rparr>" exampleLib
        neighbourVault "mdFile ''J'' ''2024-01-02''" journal Map.empty exampleLib neighbourVault
        "mdFile ''J'' ''2024-01-02''" journal Map.empty]
    by blast
  show ?thesis using b c by blast
qed

text \<open>
  The claim as the specification states it fails: when the update of a note settles,
  the flag is already clear, and an invocation that arrives next, such as the one the
  store's echoed modification triggers, passes the guard.
\<close>

theorem guard_has_no_grace_period:
  "isUpdating (fst (updateNoteLinks \<lparr>isUpdating = False\<rparr> exampleLib neighbourVault
       (mdFile ''J'' ''2024-01-02'') journal Map.empty)) = False
   \<and> beginUpdate (fst (updateNoteLinks \<lparr>isUpdating = False\<rparr> exampleLib neighbourVault
         (mdFile ''J'' ''2024-01-02'') journal Map.empty))
       exampleLib (mdFile ''J'' ''2024-01-02'') journal
     = Some (\<lparr>isUpdating = True\<rparr>, \<lparr>year = 2024, month = 0, date = 2, msOfDay = 0\<rparr>)"
  by (simp add: update_0102 beginUpdate_def journal_fields mdFile_fields parse_days)

section \<open>Lookup by string prefix\<close>

text \<open>
  Claim C10. The lookups accept a file whose path starts with the folder path as a
  string. With the stream folder \<^verbatim>\<open>J\<close> and a sibling folder \<^verbatim>\<open>J2\<close>, the before-field
  that \<^verbatim>\<open>updateNoteLinks\<close> writes references the note in \<^verbatim>\<open>J2\<close>, which is not under
  \<^verbatim>\<open>J/\<close>, and \<^verbatim>\<open>createOrUpdateBelongingNote\<close> settles on the belonging note in \<^verbatim>\<open>J2\<close>.
\<close>

theorem prefix_lookup_leaves_folder:
  "snd (updateNoteLinks \<lparr>isUpdating = False\<rparr> exampleLib siblingVault
          (mdFile ''J'' ''2024-01-02'') journal Map.empty) ''before''
     = Some (YStr ''[[J2/2024-01-01.md|2024-01-01]]'')
   \<and> strStartsWith ''J2/2024-01-01.md'' (folderPath journal)
   \<and> strStartsWith ''J2/2024-01-01.md'' (folderPath journal @ ''/'') = False
   \<and> belongingNotePath exampleLib siblingVault (mdFile ''J'' ''2024-01-02'') journal
     = Some ''J2/2024-01.md''
   \<and> strStartsWith ''J2/2024-01.md'' (folderPath journal @ ''/'') = False"
  by (simp add: update_sibling belonging_sibling prefix_facts journal_fields)

theorem prefix_lookup_leaves_folder_witness:
  "\<exists>vault file p. snd (updateNoteLinks \<lparr>isUpdating = False\<rparr> exampleLib vault file journal
          Map.empty) ''before'' = Some (YStr (''[['' @ p @ ''|2024-01-01]]''))
     \<and> strStartsWith p (folderPath journal @ ''/'') = False"
proof -
  have "snd (updateNoteLinks \<lparr>isUpdating = False\<rparr> exampleLib siblingVault
          (mdFile ''J'' ''2024-01-02'') journal Map.empty) ''before''
     = Some (YStr (''[['' @ ''J2/2024-01-01.md'' @ ''|2024-01-01]]''))
     \<and> strStartsWith ''J2/2024-01-01.md'' (folderPath journal @ ''/'') = False"
    using prefix_lookup_leaves_folder by simp
  then show ?thesis by blast
qed

section \<open>Where the code departs from its description\<close>

text \<open>
  The rename callback writes to the two link fields only.
\<close>

lemma renameField_other_key:
  "renameField key old new fm = Inr fm' \<Longrightarrow> k \<noteq> key \<Longrightarrow> fm' k = fm k"
  by (auto simp: renameField_def split: option.splits yaml.splits if_splits)

lemma renameCallback_other_keys:
  assumes "renameCallback stream old new fm = Inr fm'"
    and "k \<noteq> beforeFieldName stream" and "k \<noteq> afterFieldName stream"
  shows "fm' k = fm k"
proof -
  obtain fm1 where a: "renameField (beforeFieldName stream) old new fm = Inr fm1"
    and b: "renameField (afterFieldName stream) old new fm1 = Inr fm'"
    using assms(1) by (auto simp: renameCallback_def split: sum.splits)
  show ?thesis
    using renameField_other_key [OF a assms(2)] renameField_other_key [OF b assms(3)] by simp
qed

text \<open>
  Claim C1. \<^verbatim>\<open>updateNoteLinks\<close> writes a link as the full path, a bar and the basename
  between double brackets; \<^verbatim>\<open>handleNoteRename\<close> looks for the old basename alone
  between double brackets. After the rename of \<^verbatim>\<open>J/2024-01-02.md\<close> to
  \<^verbatim>\<open>J/2024-01-02b.md\<close> the neighbours' generated link fields are found to contain the
  old basename, the replacement finds nothing to replace, and they still reference the
  old name.
\<close>

theorem rename_misses_generated_links:
  "linkedStore ''J/2024-01-01.md'' ''after'' = Some (YStr ''[[J/2024-01-02.md|2024-01-02]]'')
   \<and> linkedStore ''J/2024-01-03.md'' ''before'' = Some (YStr ''[[J/2024-01-02.md|2024-01-02]]'')
   \<and> fst (handleNoteRename renamedVault (mdFile ''J'' ''2024-01-02b'') ''J/2024-01-02.md''
            [journal] linkedStore) ''J/2024-01-01.md'' ''after''
       = Some (YStr ''[[J/2024-01-02.md|2024-01-02]]'')
   \<and> fst (handleNoteRename renamedVault (mdFile ''J'' ''2024-01-02b'') ''J/2024-01-02.md''
            [journal] linkedStore) ''J/2024-01-03.md'' ''before''
       = Some (YStr ''[[J/2024-01-02.md|2024-01-02]]'')
   \<and> snd (handleNoteRename renamedVault (mdFile ''J'' ''2024-01-02b'') ''J/2024-01-02.md''
            [journal] linkedStore) = None"
  by (simp add: linkedStore_values rename_result del: handleNoteRename.simps)

theorem rename_misses_generated_links_witness:
  "\<exists>v. fst (handleNoteRename renamedVault (mdFile ''J'' ''2024-01-02b'') ''J/2024-01-02.md''
            [journal] linkedStore) ''J/2024-01-01.md'' ''after'' = Some (YStr v)
       \<and> strIncludes v ''2024-01-02b'' = False"
proof -
  have "strIncludes ''[[J/2024-01-02.md|2024-01-02]]'' ''2024-01-02b'' = False"
    by (rule rename_strings(5))
  then show ?thesis using rename_misses_generated_links by blast
qed

text \<open>
  Claim C2. The scan of \<^verbatim>\<open>updateBelongingNoteContent\<close> takes every listed file under
  the stream folder, subfolders included: the note \<^verbatim>\<open>J/sub/2024-01-07.md\<close>, which does
  not lie directly in \<^verbatim>\<open>J\<close>, is in the child list of January 2024.
\<close>

theorem subfolder_note_is_child:
  "updateBelongingNoteContent exampleLib januaryVault (mdFile ''J'' ''2024-01'') journal
       Map.empty ''child-notes''
     = Some (YList [YStr ''[[J/2024-01-05|2024-01-05]]'', YStr ''[[J/sub/2024-01-07|2024-01-07]]'',
               YStr ''[[J/2024-01-09|2024-01-09]]''])
   \<and> directlyInFolder (folderPath journal) ''J/sub/2024-01-07.md'' = False
   \<and> directlyInFolder (folderPath journal) ''J/2024-01-05.md''"
  by (simp add: january_refresh direct_facts journal_fields)

theorem subfolder_note_is_child_witness:
  "\<exists>links. updateBelongingNoteContent exampleLib januaryVault (mdFile ''J'' ''2024-01'') journal
       Map.empty ''child-notes'' = Some (YList links)
     \<and> YStr ''[[J/sub/2024-01-07|2024-01-07]]'' \<in> set links"
proof -
  have "YStr ''[[J/sub/2024-01-07|2024-01-07]]''
      \<in> set [YStr ''[[J/2024-01-05|2024-01-05]]'', YStr ''[[J/sub/2024-01-07|2024-01-07]]'',
               YStr ''[[J/2024-01-09|2024-01-09]]'']"
    by simp
  then show ?thesis using subfolder_note_is_child by blast
qed

text \<open>
  What the half-year branch accepts has segment 1 equal to \<^verbatim>\<open>H1\<close> or \<^verbatim>\<open>H2\<close>, and the
  result is the first day of January or of July.
\<close>

lemma halfYear_parse_result:
  assumes "parseDateFromFilename lib s ''YYYY-[H]H'' = Some d"
  shows "\<exists>yr h rest. strSplitChar CHR ''-'' s = yr # h # rest
           \<and> date d = 1 \<and> (h = ''H1'' \<and> month d = 0 \<or> h = ''H2'' \<and> month d = 6)"
proof -
  obtain yr h rest where sp: "strSplitChar CHR ''-'' s = yr # h # rest"
    using assms by (auto simp: parseDateFromFilename_def split: list.splits)
  have f: "date (setDate (setMonth x v) 1) = 1 \<and> month (setDate (setMonth x v) 1) = v mod 12"
    for x v
    by (simp add: setDate_1 setMonth_def Let_def)
  show ?thesis
    using assms sp f [of "yearFromString (now lib) yr" 0] f [of "yearFromString (now lib) yr" 6]
    by (auto simp: parseDateFromFilename_def split: if_splits)
qed

text \<open>
  Claim C3. The half-year branch of \<^verbatim>\<open>parseDateFromFilename\<close> reads the first two
  segments only: a basename with further text after the half, or with a year segment
  that is not a number, is accepted, where a strict parse returns nothing.
\<close>

theorem halfYear_parse_not_strict:
  "parseDateFromFilename exampleLib ''2024-H1-extra'' ''YYYY-[H]H''
     = Some \<lparr>year = 2024, month = 0, date = 1, msOfDay = 43200000\<rparr>
   \<and> parseDateFromFilename exampleLib ''garbage-H1'' ''YYYY-[H]H''
     = Some \<lparr>year = 2026, month = 0, date = 1, msOfDay = 43200000\<rparr>
   \<and> parseDateFromFilename exampleLib ''2024-H1'' ''YYYY-[H]H''
     = Some \<lparr>year = 2024, month = 0, date = 1, msOfDay = 43200000\<rparr>
   \<and> parseDateFromFilename exampleLib ''2024-H2'' ''YYYY-[H]H''
     = Some \<lparr>year = 2024, month = 6, date = 1, msOfDay = 43200000\<rparr>
   \<and> parseDateFromFilename exampleLib ''2024-H3'' ''YYYY-[H]H'' = None"
  by (simp add: halfYear_parses)

theorem halfYear_parse_not_strict_witness:
  "\<exists>d. parseDateFromFilename exampleLib ''2024-H1-extra'' ''YYYY-[H]H'' = Some d"
  using halfYear_parse_not_strict by blast

text \<open>
  Claim C4. The same basename breaks the round trip: it is accepted and formats back to
  the plain half-year name.
\<close>

theorem halfYear_roundtrip_fails:
  "map_option (\<lambda>d. formatDateForFilename exampleLib d ''YYYY-[H]H'')
       (parseDateFromFilename exampleLib ''2024-H1-extra'' ''YYYY-[H]H'')
     = Some ''2024-H1''
   \<and> map_option (\<lambda>d. formatDateForFilename exampleLib d ''YYYY-[H]H'')
       (parseDateFromFilename exampleLib ''24-H2'' ''YYYY-[H]H'')
     = Some ''0024-H2''
   \<and> map_option (\<lambda>d. formatDateForFilename exampleLib d ''YYYY-[H]H'')
       (parseDateFromFilename exampleLib ''2024-H2'' ''YYYY-[H]H'')
     = Some ''2024-H2''"
  by (simp add: halfYear_parses halfYear_formats)

theorem halfYear_roundtrip_fails_witness:
  "\<exists>s. map_option (\<lambda>d. formatDateForFilename exampleLib d ''YYYY-[H]H'')
       (parseDateFromFilename exampleLib ''2024-H1-extra'' ''YYYY-[H]H'') = Some s
     \<and> s \<noteq> ''2024-H1-extra''"
proof -
  have "''2024-H1'' \<noteq> ''2024-H1-extra''" by simp
  then show ?thesis using halfYear_roundtrip_fails by blast
qed

end
